theory Spec2Isabelle
  imports Complex_Main "HOL-Library.Log_Nat" "HOL-Library.Multiset"
begin

section \<open>Python values\<close>

subsection \<open>Floats\<close>

text \<open>
  A Python float is an IEEE binary64 number. A finite one is a rational, and every
  arithmetic operation returns the exact result rounded to 53 significant bits, ties to
  the even mantissa. The model keeps the rounding and leaves the exponent unbounded:
  overflow to infinity, subnormals and NaN are outside it.
\<close>

type_synonym pyfloat = rat

definition round_half_even :: "rat \<Rightarrow> int" where
  "round_half_even x =
     (let f = \<lfloor>x\<rfloor>; r = x - of_int f
      in if r < 1 / 2 then f else if 1 / 2 < r then f + 1 else if even f then f else f + 1)"

text \<open>The exponent \<open>e\<close> with \<open>2^52 \<le> \<bar>x\<bar> / 2^e < 2^53\<close>, for \<open>x \<noteq> 0\<close>.\<close>

definition binade :: "rat \<Rightarrow> int" where
  "binade x =
     (let e0 = bitlen (fst (quotient_of \<bar>x\<bar>)) - bitlen (snd (quotient_of \<bar>x\<bar>)) - 53
      in if 2 ^ 53 \<le> \<bar>x\<bar> / 2 powi e0 then e0 + 1 else e0)"

definition rnd :: "rat \<Rightarrow> pyfloat" where
  "rnd x = (if x = 0 then 0 else of_int (round_half_even (x / 2 powi binade x)) * 2 powi binade x)"

text \<open>A float literal of the source, \<open>0.4\<close> say, is the decimal rounded.\<close>

definition float_lit :: "rat \<Rightarrow> pyfloat" where
  "float_lit x = rnd x"

definition float_of_int :: "int \<Rightarrow> pyfloat" where
  "float_of_int n = rnd (of_int n)"

definition fmul :: "pyfloat \<Rightarrow> pyfloat \<Rightarrow> pyfloat" where
  "fmul x y = rnd (x * y)"

definition fadd :: "pyfloat \<Rightarrow> pyfloat \<Rightarrow> pyfloat" where
  "fadd x y = rnd (x + y)"

text \<open>
  \<open>a / b\<close> on two ints is the correctly rounded quotient. It is only reached behind a
  guard \<open>b > 0\<close>, so the ZeroDivisionError of \<open>b = 0\<close> has no branch here.
\<close>

definition int_truediv :: "int \<Rightarrow> int \<Rightarrow> pyfloat" where
  "int_truediv a b = rnd (of_int a / of_int b)"

text \<open>\<open>int(x)\<close> on a float truncates toward zero.\<close>

definition py_int :: "pyfloat \<Rightarrow> int" where
  "py_int x = (if 0 \<le> x then \<lfloor>x\<rfloor> else \<lceil>x\<rceil>)"

text \<open>\<open>x or 0\<close> on an optional float: \<open>None\<close> and \<open>0.0\<close> are both falsy.\<close>

definition or_zero :: "pyfloat option \<Rightarrow> pyfloat" where
  "or_zero x = (case x of None \<Rightarrow> 0 | Some v \<Rightarrow> if v = 0 then 0 else v)"

subsection \<open>Datetimes\<close>

record datetime =
  dt_year :: int
  dt_month :: int
  dt_day :: int
  dt_hour :: int
  dt_minute :: int
  dt_second :: int
  dt_microsecond :: int

section \<open>models/asset.py\<close>

record asset =
  filename :: string
  country :: string
  language :: string
  buyout_code :: string
  concept :: string
  audience :: string
  transaction_side :: string
  asset_format :: string
  duration :: string
  file_format :: string
  file_id :: "string option"
  mime_type :: "string option"
  size_bytes :: "int option"
  production_date :: "datetime option"
  year :: "int option"
  month :: "int option"
  budget :: int
  ad_id :: "string option"
  clicks :: "int option"
  impressions :: "int option"
  conversions :: "int option"
  is_valid_name :: bool
  is_buyout_valid :: bool
  quality_score :: "pyfloat option"
  is_privacy_compliant :: "bool option"
  previous_budget :: "int option"
  budget_updated_at :: "datetime option"
  budget_update_reason :: "string option"

text \<open>The dataclass constructor with every optional field at its default.\<close>

definition Asset where
  "Asset fn co la bc cn au ts af du ff =
     \<lparr>filename = fn, country = co, language = la, buyout_code = bc, concept = cn,
      audience = au, transaction_side = ts, asset_format = af, duration = du,
      file_format = ff, file_id = None, mime_type = None, size_bytes = None,
      production_date = None, year = None, month = None, budget = 0, ad_id = None,
      clicks = None, impressions = None, conversions = None, is_valid_name = False,
      is_buyout_valid = False, quality_score = None, is_privacy_compliant = None,
      previous_budget = None, budget_updated_at = None, budget_update_reason = None\<rparr>"

definition is_valid :: "asset \<Rightarrow> bool" where
  "is_valid a =
     (is_valid_name a
      \<and> (is_buyout_valid a \<or> (case quality_score a of None \<Rightarrow> False | Some q \<Rightarrow> 5 < q))
      \<and> (case is_privacy_compliant a of None \<Rightarrow> False | Some p \<Rightarrow> p))"

definition click_through_rate :: "asset \<Rightarrow> pyfloat option" where
  "click_through_rate a =
     (case impressions a of
        None \<Rightarrow> None
      | Some i \<Rightarrow>
          if i \<noteq> 0 \<and> 0 < i
          then (case clicks a of None \<Rightarrow> None | Some c \<Rightarrow> Some (int_truediv c i))
          else None)"

definition conversion_rate :: "asset \<Rightarrow> pyfloat option" where
  "conversion_rate a =
     (case clicks a of
        None \<Rightarrow> None
      | Some c \<Rightarrow>
          if c \<noteq> 0 \<and> 0 < c
          then (case conversions a of None \<Rightarrow> None | Some v \<Rightarrow> Some (int_truediv v c))
          else None)"

definition performance_score :: "asset \<Rightarrow> pyfloat option" where
  "performance_score a =
     (let ctr = or_zero (click_through_rate a);
          cvr = or_zero (conversion_rate a)
      in Some (fadd (fmul ctr (float_lit (4 / 10))) (fmul cvr (float_lit (6 / 10)))))"

text \<open>\<open>update_budget\<close>; \<open>now\<close> is what \<open>datetime.now()\<close> returns at the call.\<close>

definition update_budget :: "asset \<Rightarrow> int \<Rightarrow> string \<Rightarrow> datetime \<Rightarrow> asset" where
  "update_budget a new_budget reason now =
     a\<lparr>previous_budget := Some (budget a), budget := new_budget,
       budget_updated_at := Some now, budget_update_reason := Some reason\<rparr>"



section \<open>The external collaborators\<close>

text \<open>
  \<open>GoogleAdsApiSimulator\<close> and \<open>OpenAiImageAnalyzerSimulator\<close> come from modules that
  are not among the sources, so the ads endpoint and the image analyzer are parameters,
  as are the file system and the clock. Each is an oracle: the ads endpoint and the
  analyzer answer their \<open>n\<close>-th call, whatever its arguments, the clock its \<open>n\<close>-th
  reading. A response of the ads endpoint is a dictionary, an association list here; a
  call can raise instead.
\<close>

type_synonym response = "(string \<times> string) list"

datatype ads_outcome = Returns response | Raises

text \<open>
  What the analyzer's reply is once \<open>json.loads\<close> has run on it: nothing usable
  (\<open>None\<close> or the empty string), text that is no JSON, a JSON value that is no object,
  or an object with its \<open>quality\<close> entry (\<open>None\<close> when the key is missing or
  null) and its \<open>privacy\<close> entry (\<open>None\<close> when the key is missing, \<open>Some None\<close>
  when it is null). The call can raise \<open>OpenAiError\<close> or another exception.
\<close>

datatype analysis =
    Empty_Result
  | Malformed_Json
  | Not_An_Object
  | Payload "pyfloat option" "bool option option"
  | Raises_OpenAiError
  | Raises_Other

record env =
  ads_update_asset_budget :: "nat \<Rightarrow> string \<Rightarrow> string \<Rightarrow> int \<Rightarrow> ads_outcome"
  analyze_image :: "nat \<Rightarrow> string \<Rightarrow> analysis"
  path_exists :: "string \<Rightarrow> bool"
  read_bytes :: "string \<Rightarrow> string option"
  datetime_now :: "nat \<Rightarrow> datetime"

text \<open>Truthiness of an optional string: \<open>None\<close> and \<open>""\<close> are falsy.\<close>

definition truthy :: "string option \<Rightarrow> bool" where
  "truthy x = (case x of None \<Rightarrow> False | Some v \<Rightarrow> v \<noteq> [])"

definition has_error :: "response \<Rightarrow> bool" where
  "has_error resp = (''error'' \<in> set (map fst resp))"

section \<open>services/budget\_manager.py\<close>

text \<open>
  Assets are objects that the manager mutates in place and that a list may hold more
  than once, so an asset is a reference into a heap.
\<close>

type_synonym ref = nat

record change =
  ch_filename :: string
  ch_ad_id :: "string option"
  ch_previous_budget :: "int option"
  ch_new_budget :: int
  ch_adjustment_factor :: pyfloat
  ch_reason :: string
  ch_timestamp :: datetime

record skipped =
  sk_filename :: string
  sk_reason :: string
  sk_asset_id :: "string option"
  sk_ad_id :: "string option option"

record unchanged =
  un_filename :: string
  un_reason :: string
  un_asset_id :: "string option"
  un_ad_id :: "string option"
  un_budget :: int
  un_performance_score :: "pyfloat option"

record budget_manager =
  heap :: "ref \<Rightarrow> asset"
  max_retries :: int
  budget_changes :: "change list"
  skipped_assets :: "skipped list"
  unchanged_assets :: "unchanged list"
  ads_calls :: nat
  clock_reads :: nat




text \<open>
  \<open>list.sort(key=..., reverse=True)\<close> is stable: descending keys, equal keys in their
  original order. \<open>xs[-k:]\<close> is the whole list when \<open>k = 0\<close>.
\<close>

definition sort_reverse :: "('a \<Rightarrow> pyfloat) \<Rightarrow> 'a list \<Rightarrow> 'a list" where
  "sort_reverse f xs = rev (sort_key f (rev xs))"

definition last_slice :: "nat \<Rightarrow> 'a list \<Rightarrow> 'a list" where
  "last_slice k xs = (if k = 0 then xs else drop (length xs - k) xs)"

definition scored :: "(ref \<Rightarrow> asset) \<Rightarrow> ref list \<Rightarrow> (ref \<times> pyfloat) list" where
  "scored h assets =
     List.map_filter (\<lambda>r. case performance_score (h r) of None \<Rightarrow> None | Some sc \<Rightarrow> Some (r, sc)) assets"

definition identify_performance_outliers :: "(ref \<Rightarrow> asset) \<Rightarrow> ref list \<Rightarrow> ref list \<times> ref list" where
  "identify_performance_outliers h assets =
     (if assets = [] then ([], [])
      else let assets_with_scores = scored h assets
        in if assets_with_scores = [] then ([], [])
           else let sorted_scores = sort_reverse snd assets_with_scores;
                    total = length sorted_scores;
                    top_count = max 1 (total div 4);
                    low_count = max 1 (total div 4)
                in (map fst (take top_count sorted_scores),
                    map fst (last_slice low_count sorted_scores)))"

text \<open>
  \<open>update_asset_budget\<close>. The loop runs over \<open>range(max_retries)\<close>; a success mutates
  the asset, reads the clock twice and appends the change record.
\<close>

definition record_change :: "env \<Rightarrow> ref \<Rightarrow> int \<Rightarrow> pyfloat \<Rightarrow> string \<Rightarrow> budget_manager \<Rightarrow> budget_manager" where
  "record_change e r new_budget factor reason s =
     (let a = update_budget (heap s r) new_budget reason (datetime_now e (clock_reads s))
      in s\<lparr>heap := (heap s)(r := a),
            budget_changes := budget_changes s @
              [\<lparr>ch_filename = filename a, ch_ad_id = ad_id a,
                ch_previous_budget = previous_budget a, ch_new_budget = new_budget,
                ch_adjustment_factor = factor, ch_reason = reason,
                ch_timestamp = datetime_now e (Suc (clock_reads s))\<rparr>],
            clock_reads := Suc (Suc (clock_reads s))\<rparr>)"

fun attempts :: "env \<Rightarrow> ref \<Rightarrow> string \<Rightarrow> string \<Rightarrow> int \<Rightarrow> pyfloat \<Rightarrow> string \<Rightarrow> nat list
    \<Rightarrow> budget_manager \<Rightarrow> bool \<times> budget_manager" where
  "attempts e r ad fid new_budget factor reason [] s = (False, s)"
| "attempts e r ad fid new_budget factor reason (attempt # rest) s =
     (let s1 = s\<lparr>ads_calls := Suc (ads_calls s)\<rparr>
      in case ads_update_asset_budget e (ads_calls s) ad fid new_budget of
           Returns resp \<Rightarrow>
             if has_error resp
             then if int attempt = max_retries s - 1 then (False, s1)
                  else attempts e r ad fid new_budget factor reason rest s1
             else (True, record_change e r new_budget factor reason s1)
         | Raises \<Rightarrow>
             if int attempt = max_retries s - 1 then (False, s1)
             else attempts e r ad fid new_budget factor reason rest s1)"

definition update_asset_budget :: "env \<Rightarrow> ref \<Rightarrow> pyfloat \<Rightarrow> string \<Rightarrow> budget_manager
    \<Rightarrow> bool \<times> budget_manager" where
  "update_asset_budget e r adjustment_factor reason s =
     (let a = heap s r
      in if \<not> truthy (ad_id a) \<or> \<not> truthy (file_id a) then (False, s)
         else let new_budget = py_int (fmul (float_of_int (budget a)) adjustment_factor)
           in attempts e r (the (ad_id a)) (the (file_id a)) new_budget adjustment_factor reason
                [0..<nat (max_retries s)] s)"

text \<open>
  \<open>adjust_budgets_by_performance\<close>. Comparing a score that is \<open>None\<close> with a
  threshold raises \<open>TypeError\<close>, the one exception of the function; the filter before
  lets no such asset through.
\<close>

datatype py_error = TypeError | IndexError












text \<open>An attempt fails when the call raises or its response has an \<open>error\<close> key.\<close>

definition failed :: "ads_outcome \<Rightarrow> bool" where
  "failed out = (case out of Raises \<Rightarrow> True | Returns resp \<Rightarrow> has_error resp)"

text \<open>
  Concrete surroundings: a clock, an endpoint that accepts every update, one that fails
  every call (raising at the second), one that fails twice and then accepts, and a
  manager over four assets, three of them in one ad.
\<close>

definition accepting_env :: env where
  "accepting_env =
     \<lparr>ads_update_asset_budget = (\<lambda>n ad fid b. Returns [(''status'', ''success'')]),
      analyze_image = (\<lambda>n b. Payload (Some 8) (Some (Some True))),
      path_exists = (\<lambda>p. True),
      read_bytes = (\<lambda>p. Some ''bytes''),
      datetime_now = (\<lambda>n. \<lparr>dt_year = 2026, dt_month = 11, dt_day = 4, dt_hour = 12,
                             dt_minute = 0, dt_second = 0, dt_microsecond = int n\<rparr>)\<rparr>"

definition failing_env :: env where
  "failing_env =
     accepting_env\<lparr>ads_update_asset_budget :=
       (\<lambda>n ad fid b. if n = 1 then Raises else Returns [(''error'', ''API error'')])\<rparr>"

definition flaky_env :: env where
  "flaky_env =
     accepting_env\<lparr>ads_update_asset_budget :=
       (\<lambda>n ad fid b. if n < 2 then Returns [(''error'', ''API error'')]
                      else Returns [(''status'', ''success'')])\<rparr>"

definition example_asset :: "string \<Rightarrow> string \<Rightarrow> int \<Rightarrow> int \<Rightarrow> int \<Rightarrow> int \<Rightarrow> asset" where
  "example_asset fn ad b i c v =
     (Asset fn ''US'' ''EN'' ''BUY1'' ''c'' ''a'' ''t'' ''f'' ''d'' ''jpg'')
       \<lparr>file_id := Some fn, ad_id := Some ad, budget := b,
         impressions := Some i, clicks := Some c, conversions := Some v\<rparr>"

definition example_heap :: "ref \<Rightarrow> asset" where
  "example_heap r =
     (if r = 0 then example_asset ''a1.jpg'' ''ad123'' 100 1000 100 20
      else if r = 1 then example_asset ''a2.jpg'' ''ad123'' 150 1000 50 5
      else if r = 2 then example_asset ''a3.jpg'' ''ad123'' 120 1000 10 0
      else example_asset ''a4.jpg'' ''ad456'' 100 1000 900 800)"

definition example_manager :: budget_manager where
  "example_manager =
     \<lparr>heap = example_heap, max_retries = 3, budget_changes = [], skipped_assets = [],
      unchanged_assets = [], ads_calls = 0, clock_reads = 0\<rparr>"

text \<open>A manager over an asset whose budget, \<open>2^53 + 1\<close>, is no binary64 number.\<close>

definition large_budget_manager :: budget_manager where
  "large_budget_manager =
     example_manager\<lparr>heap := (\<lambda>r. example_asset ''a1.jpg'' ''ad123'' 9007199254740993 1000 100 20)\<rparr>"

section \<open>Strings and regular expressions\<close>

text \<open>
  A character is a code point below 256. \<open>\s\<close> and \<open>str.strip()\<close> know the same
  whitespace: tab to carriage return, the four separators 28 to 31, the space, and the
  code points 133 and 160.
\<close>

definition whitespace :: "char set" where
  "whitespace =
     {CHR 0x09, CHR 0x0A, CHR 0x0B, CHR 0x0C, CHR 0x0D, CHR 0x1C, CHR 0x1D, CHR 0x1E, CHR 0x1F,
      CHR 0x20, CHR 0x85, CHR 0xA0}"

definition uppercase :: "char set" where
  "uppercase = set ''ABCDEFGHIJKLMNOPQRSTUVWXYZ''"

definition lowercase :: "char set" where
  "lowercase = set ''abcdefghijklmnopqrstuvwxyz''"

definition digits :: "char set" where
  "digits = set ''0123456789''"

definition newline :: char where
  "newline = CHR 0x0A"

definition strip :: "string \<Rightarrow> string" where
  "strip s = rev (dropWhile (\<lambda>c. c \<in> whitespace) (rev (dropWhile (\<lambda>c. c \<in> whitespace) s)))"

text \<open>\<open>os.path.basename\<close> of \<open>posixpath\<close>: what follows the last slash.\<close>

definition basename :: "string \<Rightarrow> string" where
  "basename p = rev (takeWhile (\<lambda>c. c \<noteq> CHR ''/'') (rev p))"

text \<open>
  The regular expressions of the repository, and those \<open>strptime\<close> compiles its formats
  to, are sequences of items over single-character classes: one character, a greedy
  \<open>*\<close> or \<open>+\<close>, a lazy \<open>+?\<close>, an alternation of fixed character sequences, the
  parentheses of a group, \<open>^\<close> and \<open>$\<close>. \<open>Lazy_Star\<close> is what is left of a \<open>+?\<close> after
  its first character. Groups do not nest.
\<close>

datatype item =
    One "char set"
  | Star "char set"
  | Plus "char set"
  | Lazy_Plus "char set"
  | Lazy_Star "char set"
  | Alt "char set list list"
  | Open_Group
  | Close_Group
  | Bol
  | Eol

record matching =
  pos :: nat
  groups :: "string list"
  cur :: "string option"

definition consume :: "char \<Rightarrow> matching \<Rightarrow> matching" where
  "consume x st = st\<lparr>pos := Suc (pos st), cur := map_option (\<lambda>g. g @ [x]) (cur st)\<rparr>"

text \<open>A fixed sequence of classes against the front of the input: what it takes, and the rest.\<close>

fun fixed :: "char set list \<Rightarrow> string \<Rightarrow> (string \<times> string) option" where
  "fixed [] s = Some ([], s)"
| "fixed (c # cs) [] = None"
| "fixed (c # cs) (x # s) =
     (if x \<in> c then (case fixed cs s of None \<Rightarrow> None | Some (w, s') \<Rightarrow> Some (x # w, s'))
      else None)"

text \<open>
  An alternation tries its branches in order: the first that fits the input and lets the
  rest of the expression, \<open>k\<close>, match.
\<close>

fun try_alts :: "char set list list \<Rightarrow> string \<Rightarrow> (string \<Rightarrow> string \<Rightarrow> 'a option) \<Rightarrow> 'a option" where
  "try_alts [] s k = None"
| "try_alts (a # as) s k =
     (case fixed a s of
        None \<Rightarrow> try_alts as s k
      | Some (w, s') \<Rightarrow> (case k w s' of Some res \<Rightarrow> Some res | None \<Rightarrow> try_alts as s k))"

text \<open>
  The backtracking matcher: the first match in the order a backtracking engine tries
  them, as the groups it captured and the input left over, or \<open>None\<close>.
\<close>

fun matches :: "item list \<Rightarrow> string \<Rightarrow> matching \<Rightarrow> (string list \<times> string) option" where
  "matches [] s st = Some (groups st, s)"
| "matches (One c # r) [] st = None"
| "matches (One c # r) (x # s) st = (if x \<in> c then matches r s (consume x st) else None)"
| "matches (Star c # r) [] st = matches r [] st"
| "matches (Star c # r) (x # s) st =
     (if x \<in> c
      then (case matches (Star c # r) s (consume x st) of
              Some res \<Rightarrow> Some res
            | None \<Rightarrow> matches r (x # s) st)
      else matches r (x # s) st)"
| "matches (Plus c # r) [] st = None"
| "matches (Plus c # r) (x # s) st =
     (if x \<in> c then matches (Star c # r) s (consume x st) else None)"
| "matches (Lazy_Plus c # r) [] st = None"
| "matches (Lazy_Plus c # r) (x # s) st =
     (if x \<in> c then matches (Lazy_Star c # r) s (consume x st) else None)"
| "matches (Lazy_Star c # r) [] st = matches r [] st"
| "matches (Lazy_Star c # r) (x # s) st =
     (case matches r (x # s) st of
        Some res \<Rightarrow> Some res
      | None \<Rightarrow> if x \<in> c then matches (Lazy_Star c # r) s (consume x st) else None)"
| "matches (Alt alts # r) s st = try_alts alts s (\<lambda>w s'. matches r s' (fold consume w st))"
| "matches (Open_Group # r) s st = matches r s (st\<lparr>cur := Some []\<rparr>)"
| "matches (Close_Group # r) s st =
     matches r s (st\<lparr>groups := groups st @ [case cur st of None \<Rightarrow> [] | Some g \<Rightarrow> g],
                     cur := None\<rparr>)"
| "matches (Bol # r) s st = (if pos st = 0 then matches r s st else None)"
| "matches (Eol # r) s st = (if s = [] \<or> s = [newline] then matches r s st else None)"

text \<open>\<open>re.match\<close>: the match starts at the front and need not reach the end.\<close>

definition re_match :: "item list \<Rightarrow> string \<Rightarrow> (string list \<times> string) option" where
  "re_match p s = matches p s \<lparr>pos = 0, groups = [], cur = None\<rparr>"

section \<open>utils/asset\_parser.py\<close>

text \<open>
  The pattern of \<open>AssetParser\<close>:
  \<^verbatim>\<open>^([A-Z]{2}-[A-Z]{2})\s*\|\s*([A-Za-z0-9]+)\s*\|\s*(.+?)\s*\|\s*(.+?)\s*\|\s*(.+?)\s*\|\s*(.+?)\s*\|\s*(.+?)\s*\|\s*(.+)$\<close>.
  A dot is any character but the newline.
\<close>

definition pipe :: "char set" where
  "pipe = {CHR ''|''}"

definition alnum :: "char set" where
  "alnum = uppercase \<union> lowercase \<union> digits"

definition dot :: "char set" where
  "dot = - {newline}"

definition separator :: "item list" where
  "separator = [Star whitespace, One pipe, Star whitespace]"

definition lazy_field :: "item list" where
  "lazy_field = separator @ [Open_Group, Lazy_Plus dot, Close_Group]"

definition pattern :: "item list" where
  "pattern =
     [Bol, Open_Group, One uppercase, One uppercase, One {CHR ''-''}, One uppercase, One uppercase,
      Close_Group]
     @ separator @ [Open_Group, Plus alnum, Close_Group]
     @ lazy_field @ lazy_field @ lazy_field @ lazy_field @ lazy_field
     @ separator @ [Open_Group, Plus dot, Close_Group, Eol]"

text \<open>
  \<open>parse_filename\<close> returns a dictionary or \<open>None\<close>. The pattern has eight groups, which
  pair with the eight keys in order.
\<close>

type_synonym parsed = "(string \<times> string) list"

definition parse_filename :: "string \<Rightarrow> parsed option" where
  "parse_filename fname =
     (let base_name = basename fname
      in case re_match pattern base_name of
           None \<Rightarrow> None
         | Some (gs, rest) \<Rightarrow>
             Some (zip [''country_language'', ''buyout_code'', ''concept'', ''audience'',
                        ''transaction_side'', ''asset_format'', ''duration'', ''file_format'']
                       (map strip gs)
                   @ [(''original_filename'', base_name)]))"

text \<open>\<open>s.split(c)\<close>, \<open>xs[i]\<close> with its \<open>IndexError\<close>, and \<open>d.get(k, "")\<close>.\<close>

fun split :: "char \<Rightarrow> string \<Rightarrow> string list" where
  "split c [] = [[]]"
| "split c (x # s) =
     (if x = c then [] # split c s
      else (case split c s of p # ps \<Rightarrow> (x # p) # ps | [] \<Rightarrow> [[x]]))"

definition index :: "'a list \<Rightarrow> nat \<Rightarrow> py_error + 'a" where
  "index xs i = (if i < length xs then Inr (xs ! i) else Inl IndexError)"

definition get :: "parsed \<Rightarrow> string \<Rightarrow> string" where
  "get d k = (case map_of d k of None \<Rightarrow> [] | Some v \<Rightarrow> v)"

definition create_asset_from_parsed_data :: "string \<Rightarrow> parsed \<Rightarrow> py_error + asset" where
  "create_asset_from_parsed_data fname parsed_data =
     (let country_language = get parsed_data ''country_language''
      in case (if CHR ''-'' \<in> set country_language then index (split CHR ''-'' country_language) 0
               else Inr []) of
           Inl err \<Rightarrow> Inl err
         | Inr co \<Rightarrow>
             (case (if CHR ''-'' \<in> set country_language
                    then index (split CHR ''-'' country_language) 1 else Inr []) of
                Inl err \<Rightarrow> Inl err
              | Inr la \<Rightarrow>
                  Inr ((Asset fname co la (get parsed_data ''buyout_code'')
                         (get parsed_data ''concept'') (get parsed_data ''audience'')
                         (get parsed_data ''transaction_side'') (get parsed_data ''asset_format'')
                         (get parsed_data ''duration'') (get parsed_data ''file_format''))
                       \<lparr>is_valid_name := True\<rparr>)))"

text \<open>
  The shape of a field between two pipes: \<open>blank\<close> padding is whitespace only, and a
  \<open>text\<close> is not empty, neither starts nor ends with whitespace, and holds neither a pipe
  nor a newline.
\<close>

definition blank :: "string \<Rightarrow> bool" where
  "blank w = (set w \<subseteq> whitespace)"

definition text_span :: "string \<Rightarrow> bool" where
  "text_span f =
     (f \<noteq> [] \<and> hd f \<notin> whitespace \<and> last f \<notin> whitespace
      \<and> CHR ''|'' \<notin> set f \<and> newline \<notin> set f)"

text \<open>
  A field as the file name holds it, padding included: it has a character that is not
  whitespace, and no pipe, newline or slash.
\<close>

definition plain_field :: "string \<Rightarrow> bool" where
  "plain_field r =
     (strip r \<noteq> [] \<and> CHR ''|'' \<notin> set r \<and> newline \<notin> set r \<and> CHR ''/'' \<notin> set r)"

section \<open>datetime.strptime\<close>

text \<open>
  \<open>strptime\<close> compiles a format to a regular expression, one group for each directive:
  \<^verbatim>\<open>%d\<close> is \<^verbatim>\<open>3[0-1]|[1-2]\d|0[1-9]|[1-9]| [1-9]\<close>, \<^verbatim>\<open>%m\<close> is
  \<^verbatim>\<open>1[0-2]|0[1-9]|[1-9]\<close>, \<^verbatim>\<open>%Y\<close> is four digits. The expression must match
  the whole string, and the day must exist in the month of the year; every failure is
  the same \<open>ValueError\<close>, \<open>None\<close> here.
\<close>

datatype directive = Day | Month | Year4 | Literal char

definition nonzero :: "char set" where
  "nonzero = set ''123456789''"

definition day_alternatives :: "char set list list" where
  "day_alternatives =
     [[{CHR ''3''}, set ''01''], [set ''12'', digits], [{CHR ''0''}, nonzero], [nonzero],
      [{CHR '' ''}, nonzero]]"

definition month_alternatives :: "char set list list" where
  "month_alternatives = [[{CHR ''1''}, set ''012''], [{CHR ''0''}, nonzero], [nonzero]]"

fun directive_items :: "directive \<Rightarrow> item list" where
  "directive_items Day = [Open_Group, Alt day_alternatives, Close_Group]"
| "directive_items Month = [Open_Group, Alt month_alternatives, Close_Group]"
| "directive_items Year4 = [Open_Group, One digits, One digits, One digits, One digits, Close_Group]"
| "directive_items (Literal c) = [One {c}]"

definition format_regex :: "directive list \<Rightarrow> item list" where
  "format_regex fmt = concat (map directive_items fmt)"

text \<open>\<open>int(s)\<close> on a group: decimal digits, after the space \<^verbatim>\<open>%d\<close> may start with.\<close>

definition digit_value :: "char \<Rightarrow> int" where
  "digit_value c = int (length (takeWhile (\<lambda>d. d \<noteq> c) ''0123456789''))"

definition int_of_string :: "string \<Rightarrow> int" where
  "int_of_string s = foldl (\<lambda>n c. 10 * n + digit_value c) 0 (dropWhile (\<lambda>c. c = CHR '' '') s)"

definition is_leap :: "int \<Rightarrow> bool" where
  "is_leap y = (y mod 4 = 0 \<and> (y mod 100 \<noteq> 0 \<or> y mod 400 = 0))"

definition days_in_month :: "int \<Rightarrow> int \<Rightarrow> int" where
  "days_in_month y m =
     (if m = 2 then (if is_leap y then 29 else 28)
      else if m = 4 \<or> m = 6 \<or> m = 9 \<or> m = 11 then 30 else 31)"

definition valid_date :: "int \<Rightarrow> int \<Rightarrow> int \<Rightarrow> bool" where
  "valid_date y m d = (1 \<le> y \<and> y \<le> 9999 \<and> 1 \<le> m \<and> m \<le> 12 \<and> 1 \<le> d \<and> d \<le> days_in_month y m)"

definition midnight :: "int \<Rightarrow> int \<Rightarrow> int \<Rightarrow> datetime" where
  "midnight y m d =
     \<lparr>dt_year = y, dt_month = m, dt_day = d, dt_hour = 0, dt_minute = 0, dt_second = 0,
      dt_microsecond = 0\<rparr>"

text \<open>A directive missing from the format leaves the year at 1900, month and day at 1.\<close>

definition found_value :: "(directive \<times> string) list \<Rightarrow> directive \<Rightarrow> int \<Rightarrow> int" where
  "found_value found d dflt = (case map_of found d of None \<Rightarrow> dflt | Some g \<Rightarrow> int_of_string g)"

definition strptime :: "string \<Rightarrow> directive list \<Rightarrow> datetime option" where
  "strptime s fmt =
     (case re_match (format_regex fmt) s of
        None \<Rightarrow> None
      | Some (gs, rest) \<Rightarrow>
          if rest \<noteq> [] then None
          else let found = zip (filter (\<lambda>d. d = Day \<or> d = Month \<or> d = Year4) fmt) gs;
                   y = found_value found Year4 1900;
                   m = found_value found Month 1;
                   d = found_value found Day 1
               in if valid_date y m d then Some (midnight y m d) else None)"

text \<open>Datetimes compare field by field, the year first.\<close>

fun lex_less :: "int list \<Rightarrow> int list \<Rightarrow> bool" where
  "lex_less (x # xs) (y # ys) = (x < y \<or> (x = y \<and> lex_less xs ys))"
| "lex_less xs ys = False"

definition datetime_less :: "datetime \<Rightarrow> datetime \<Rightarrow> bool" where
  "datetime_less a b =
     lex_less [dt_year a, dt_month a, dt_day a, dt_hour a, dt_minute a, dt_second a, dt_microsecond a]
              [dt_year b, dt_month b, dt_day b, dt_hour b, dt_minute b, dt_second b, dt_microsecond b]"

section \<open>services/asset\_validator.py\<close>

datatype reason =
    Invalid_Filename_Format
  | Expired_Or_Invalid_Buyout_Code
  | Quality_Check_Failed
  | Low_Quality_Score pyfloat
  | Privacy_Compliance_Check_Failed
  | Not_Privacy_Compliant

record validator =
  results_valid :: "string list"
  results_invalid :: "(string \<times> reason list) list"
  results_errors :: "string list"
  push_calls :: nat
  analyzer_calls :: nat
  now_reads :: nat

definition validate_asset_name :: "asset \<Rightarrow> bool" where
  "validate_asset_name a =
     list_all (\<lambda>v. v \<noteq> [])
       [country a, language a, buyout_code a, concept a, audience a, transaction_side a,
        asset_format a, duration a]"

text \<open>
  \<open>validate_buyout_code\<close>: the four formats in the order of the source,
  \<^verbatim>\<open>%d/%m/%Y\<close>, \<^verbatim>\<open>%m/%d/%Y\<close>, \<^verbatim>\<open>%Y-%m-%d\<close>, \<^verbatim>\<open>%Y/%m/%d\<close>; the loop stops at
  the first that parses. The expiry table is a dictionary from codes to strings.
\<close>

definition date_formats :: "directive list list" where
  "date_formats =
     [[Day, Literal CHR ''/'', Month, Literal CHR ''/'', Year4],
      [Month, Literal CHR ''/'', Day, Literal CHR ''/'', Year4],
      [Year4, Literal CHR ''-'', Month, Literal CHR ''-'', Day],
      [Year4, Literal CHR ''/'', Month, Literal CHR ''/'', Day]]"

fun first_parse :: "directive list list \<Rightarrow> string \<Rightarrow> datetime option" where
  "first_parse [] s = None"
| "first_parse (fmt # fmts) s =
     (case strptime s fmt of Some d \<Rightarrow> Some d | None \<Rightarrow> first_parse fmts s)"

definition validate_buyout_code :: "env \<Rightarrow> asset \<Rightarrow> (string \<Rightarrow> string option) \<Rightarrow> validator
    \<Rightarrow> bool \<times> validator" where
  "validate_buyout_code e a buyout_data s =
     (if buyout_code a = [] then (False, s)
      else case buyout_data (buyout_code a) of
             None \<Rightarrow> (False, s)
           | Some expiration_date_str \<Rightarrow>
               if expiration_date_str = [] then (False, s)
               else (case first_parse date_formats expiration_date_str of
                       None \<Rightarrow> (False, s)
                     | Some expiration_date \<Rightarrow>
                         let current_date = datetime_now e (now_reads s);
                             s1 = s\<lparr>now_reads := Suc (now_reads s)\<rparr>
                         in if datetime_less expiration_date current_date then (False, s1)
                            else (True, s1)))"

text \<open>
  \<open>validate_image_quality\<close>, with its three attempts. An empty reply and malformed
  JSON go to the next attempt, an \<open>OpenAiError\<close> too unless the attempt is the last;
  any other exception ends the call with \<open>(None, None)\<close>.
\<close>

fun analyze_loop :: "env \<Rightarrow> string \<Rightarrow> int \<Rightarrow> nat list \<Rightarrow> validator
    \<Rightarrow> (pyfloat option \<times> bool option) \<times> validator" where
  "analyze_loop e image_bytes max_tries [] s = ((None, None), s)"
| "analyze_loop e image_bytes max_tries (attempt # rest) s =
     (let s1 = s\<lparr>analyzer_calls := Suc (analyzer_calls s)\<rparr>
      in case analyze_image e (analyzer_calls s) image_bytes of
           Empty_Result \<Rightarrow> analyze_loop e image_bytes max_tries rest s1
         | Malformed_Json \<Rightarrow> analyze_loop e image_bytes max_tries rest s1
         | Not_An_Object \<Rightarrow> ((None, None), s1)
         | Payload quality privacy \<Rightarrow>
             ((quality, case privacy of None \<Rightarrow> Some False | Some v \<Rightarrow> v), s1)
         | Raises_OpenAiError \<Rightarrow>
             if int attempt = max_tries - 1 then ((None, None), s1)
             else analyze_loop e image_bytes max_tries rest s1
         | Raises_Other \<Rightarrow> ((None, None), s1))"

definition validate_image_quality :: "env \<Rightarrow> asset \<Rightarrow> string \<Rightarrow> validator
    \<Rightarrow> (pyfloat option \<times> bool option) \<times> validator" where
  "validate_image_quality e a image_path s =
     (if \<not> path_exists e image_path then ((None, None), s)
      else case read_bytes e image_path of
             None \<Rightarrow> ((None, None), s)
           | Some image_bytes \<Rightarrow> analyze_loop e image_bytes 3 [0..<3] s)"

text \<open>The validator's own \<open>update_asset_budget\<close>: it pushes a budget and changes no asset.\<close>

fun push_attempts :: "env \<Rightarrow> string \<Rightarrow> string \<Rightarrow> int \<Rightarrow> int \<Rightarrow> nat list \<Rightarrow> validator
    \<Rightarrow> bool \<times> validator" where
  "push_attempts e ad fid new_budget max_tries [] s = (False, s)"
| "push_attempts e ad fid new_budget max_tries (attempt # rest) s =
     (let s1 = s\<lparr>push_calls := Suc (push_calls s)\<rparr>
      in case ads_update_asset_budget e (push_calls s) ad fid new_budget of
           Returns resp \<Rightarrow>
             if has_error resp
             then if int attempt = max_tries - 1 then (False, s1)
                  else push_attempts e ad fid new_budget max_tries rest s1
             else (True, s1)
         | Raises \<Rightarrow>
             if int attempt = max_tries - 1 then (False, s1)
             else push_attempts e ad fid new_budget max_tries rest s1)"

definition validator_update_asset_budget :: "env \<Rightarrow> asset \<Rightarrow> bool \<Rightarrow> validator
    \<Rightarrow> bool \<times> validator" where
  "validator_update_asset_budget e a set_to_zero s =
     (if \<not> truthy (ad_id a) then (False, s)
      else if \<not> truthy (file_id a) then (False, s)
      else let new_budget = (if set_to_zero then 0 else budget a)
        in push_attempts e (the (ad_id a)) (the (file_id a)) new_budget 3 [0..<3] s)"

definition get_validation_failure_reasons :: "asset \<Rightarrow> reason list" where
  "get_validation_failure_reasons a =
     (if \<not> is_valid_name a then [Invalid_Filename_Format] else [])
     @ (if \<not> is_buyout_valid a then [Expired_Or_Invalid_Buyout_Code] else [])
     @ (case quality_score a of
          None \<Rightarrow> [Quality_Check_Failed]
        | Some q \<Rightarrow> if q \<le> 5 then [Low_Quality_Score q] else [])
     @ (case is_privacy_compliant a of
          None \<Rightarrow> [Privacy_Compliance_Check_Failed]
        | Some p \<Rightarrow> if \<not> p then [Not_Privacy_Compliant] else [])"

text \<open>
  \<open>validate_asset\<close> returns the asset it was given, mutated. \<open>zero_budget\<close> is its
  step 4 and \<open>report\<close> its last step. Log calls change no state and are left out
  throughout.
\<close>

definition zero_budget :: "env \<Rightarrow> asset \<Rightarrow> validator \<Rightarrow> asset \<times> validator" where
  "zero_budget e a s =
     (if \<not> is_buyout_valid a
      then (case validator_update_asset_budget e a True s of (pushed, s') \<Rightarrow> (a\<lparr>budget := 0\<rparr>, s'))
      else (a, s))"

definition report :: "asset \<Rightarrow> validator \<Rightarrow> validator" where
  "report a s =
     (if is_valid a then s\<lparr>results_valid := results_valid s @ [filename a]\<rparr>
      else s\<lparr>results_invalid := results_invalid s
                @ [(filename a, get_validation_failure_reasons a)]\<rparr>)"

definition validate_asset :: "env \<Rightarrow> asset \<Rightarrow> string \<Rightarrow> (string \<Rightarrow> string option) \<Rightarrow> validator
    \<Rightarrow> asset \<times> validator" where
  "validate_asset e a image_path buyout_data s =
     (let a1 = a\<lparr>is_valid_name := validate_asset_name a\<rparr>
      in case validate_buyout_code e a1 buyout_data s of
           (buyout_ok, s1) \<Rightarrow>
             let a2 = a1\<lparr>is_buyout_valid := buyout_ok\<rparr>
             in case validate_image_quality e a2 image_path s1 of
                  ((quality, privacy), s2) \<Rightarrow>
                    let a3 = a2\<lparr>quality_score := quality, is_privacy_compliant := privacy\<rparr>
                    in case zero_budget e a3 s2 of
                         (a4, s3) \<Rightarrow> (a4, report a4 s3))"

text \<open>An expiry table, a fresh validator, and an asset for each of the two codes.\<close>

definition example_buyout_data :: "string \<Rightarrow> string option" where
  "example_buyout_data code =
     (if code = ''BUY2020'' then Some ''31/12/2020''
      else if code = ''BUY2099'' then Some ''31/12/2099'' else None)"

definition fresh_validator :: validator where
  "fresh_validator =
     \<lparr>results_valid = [], results_invalid = [], results_errors = [], push_calls = 0,
      analyzer_calls = 0, now_reads = 0\<rparr>"

definition expired_asset :: asset where
  "expired_asset = (example_asset ''a1.jpg'' ''ad123'' 100 1000 100 20)\<lparr>buyout_code := ''BUY2020''\<rparr>"

definition licensed_asset :: asset where
  "licensed_asset = (example_asset ''a1.jpg'' ''ad123'' 100 1000 100 20)\<lparr>buyout_code := ''BUY2099''\<rparr>"

section \<open>Validity and performance of an asset\<close>

lemma float_lit_5_0001: "5 < float_lit (50001 / 10000)"
  by code_simp

text \<open>
  C1. \<open>is_valid\<close> holds exactly when the name is valid, the buyout is valid or the
  quality score is known and strictly above 5, and privacy compliance is known and true.
  With an invalid buyout a score of exactly 5 is invalid, and a score of 5.0001 passes
  the quality disjunct, so validity then rests on the name and the privacy flag alone.
\<close>

theorem is_valid_iff:
  "is_valid a =
     (is_valid_name a
      \<and> (is_buyout_valid a \<or> (\<exists>q. quality_score a = Some q \<and> 5 < q))
      \<and> is_privacy_compliant a = Some True)
   \<and> \<not> is_valid (a\<lparr>is_buyout_valid := False, quality_score := Some 5\<rparr>)
   \<and> is_valid (a\<lparr>is_buyout_valid := False, quality_score := Some (float_lit (50001 / 10000))\<rparr>)
       = (is_valid_name a \<and> is_privacy_compliant a = Some True)"
proof -
  have main: "is_valid b =
     (is_valid_name b
      \<and> (is_buyout_valid b \<or> (\<exists>q. quality_score b = Some q \<and> 5 < q))
      \<and> is_privacy_compliant b = Some True)" for b :: asset
    by (cases "quality_score b"; cases "is_privacy_compliant b") (auto simp: is_valid_def)
  have five: "\<not> is_valid (a\<lparr>is_buyout_valid := False, quality_score := Some 5\<rparr>)"
    by (simp add: main)
  have above: "is_valid (a\<lparr>is_buyout_valid := False, quality_score := Some (float_lit (50001 / 10000))\<rparr>)
       = (is_valid_name a \<and> is_privacy_compliant a = Some True)"
    using float_lit_5_0001 by (simp add: main)
  from main [of a] five above show ?thesis by blast
qed




section \<open>Budget updates\<close>




section \<open>The counters of a budget adjustment\<close>












section \<open>Top and low performers of an ad group\<close>




















text \<open>
  The selections do coincide on a list of one asset, which only a direct call of
  \<open>identify_performance_outliers\<close> passes, and on a list naming the same object twice.
\<close>

lemma single_asset_list_overlaps: "identify_performance_outliers h [r] = ([r], [r])"
proof -
  have "scored h [r] = [(r, the (performance_score (h r)))]"
    by (simp add: scored_def List.map_filter_def performance_score_def Let_def)
  then show ?thesis
    by (simp add: identify_performance_outliers_def sort_reverse_def last_slice_def)
qed

lemma repeated_asset_overlaps: "identify_performance_outliers h [r, r] = ([r], [r])"
proof -
  have "scored h [r, r] = [(r, the (performance_score (h r))), (r, the (performance_score (h r)))]"
    by (simp add: scored_def List.map_filter_def performance_score_def Let_def)
  then show ?thesis
    by (simp add: identify_performance_outliers_def sort_reverse_def last_slice_def)
qed

section \<open>Rounding\<close>

lemma round_half_even_of_int: "round_half_even (of_int m) = m"
  by (simp add: round_half_even_def)

lemma binade_of_int:
  assumes "0 < n"
  shows "binade (of_int n) = bitlen n - 53"
proof -
  have q: "quotient_of \<bar>of_int n\<bar> = (n, 1)"
    using assms by (simp add: quotient_of_int)
  have b1: "bitlen 1 = 1" by (simp add: bitlen_alt_def)
  have bl: "1 \<le> bitlen n" using assms by (simp add: bitlen_alt_def)
  from bitlen_bounds [OF assms] have lo: "2 ^ nat (bitlen n - 1) \<le> n" by simp
  have ex: "53 + (bitlen n - 54) = int (nat (bitlen n - 1))" using bl by simp
  have "(2::rat) ^ 53 = 2 powi 53" by (simp only: power_int_numeral)
  then have "(2::rat) ^ 53 * 2 powi (bitlen n - 54) = 2 powi 53 * 2 powi (bitlen n - 54)"
    by (simp only:)
  also have "\<dots> = 2 powi (53 + (bitlen n - 54))"
    by (rule power_int_add [symmetric]) simp
  also have "\<dots> = 2 powi int (nat (bitlen n - 1))" by (simp only: ex)
  also have "\<dots> = of_int (2 ^ nat (bitlen n - 1))" by (simp only: power_int_of_nat) simp
  also have "\<dots> \<le> of_int n" using lo by (simp only: of_int_le_iff)
  finally have "(2::rat) ^ 53 * 2 powi (bitlen n - 54) \<le> of_int n" .
  moreover have "(0::rat) < 2 powi (bitlen n - 54)" by (simp add: zero_less_power_int)
  ultimately have "(2::rat) ^ 53 \<le> of_int n / 2 powi (bitlen n - 54)"
    by (simp add: pos_le_divide_eq)
  moreover have "\<bar>of_int n :: rat\<bar> = of_int n" using assms by simp
  ultimately show ?thesis
    by (simp add: binade_def q b1 Let_def del: abs_of_nonneg)
qed

lemma rnd_representable:
  assumes "x = of_int m * 2 powi e" and "binade x \<le> e"
  shows "rnd x = x"
proof (cases "x = 0")
  case True
  then show ?thesis by (simp add: rnd_def)
next
  case False
  define b where "b = binade x"
  have le: "b \<le> e" using assms(2) by (simp add: b_def)
  have pos: "(2::rat) powi b \<noteq> 0" by simp
  have "(2::rat) powi e = 2 powi ((e - b) + b)" by simp
  also have "\<dots> = 2 powi (e - b) * 2 powi b" by (rule power_int_add) simp
  also have "(2::rat) powi (e - b) = 2 powi int (nat (e - b))" using le by simp
  also have "\<dots> = of_int (2 ^ nat (e - b))" by (simp only: power_int_of_nat) simp
  finally have split: "(2::rat) powi e = of_int (2 ^ nat (e - b)) * 2 powi b" .
  have "x / 2 powi b = of_int m * of_int (2 ^ nat (e - b))"
    using pos by (simp add: assms(1) split)
  also have "\<dots> = of_int (m * 2 ^ nat (e - b))" by simp
  finally have "round_half_even (x / 2 powi b) = m * 2 ^ nat (e - b)"
    by (simp only: round_half_even_of_int)
  then have "rnd x = of_int (m * 2 ^ nat (e - b)) * 2 powi b"
    using False by (simp add: rnd_def b_def)
  also have "\<dots> = of_int m * (of_int (2 ^ nat (e - b)) * 2 powi b)" by simp
  also have "\<dots> = x" by (simp only: split [symmetric] assms(1))
  finally show ?thesis .
qed

lemma rnd_of_int_exact:
  assumes "0 \<le> n" and "n \<le> 2 ^ 53"
  shows "rnd (of_int n) = of_int n"
proof (cases "n = 0")
  case True
  then show ?thesis by (simp add: rnd_def)
next
  case False
  with assms have pos: "0 < n" by simp
  show ?thesis
  proof (cases "n = 2 ^ 53")
    case True
    have "bitlen (1 * 2 ^ 53) = bitlen 1 + int 53" by (rule bitlen_pow2) simp
    moreover have "bitlen 1 = 1" by (simp add: bitlen_alt_def)
    ultimately have "bitlen n = 54" using True by simp
    then have b: "binade (of_int n) \<le> 53" using binade_of_int [OF pos] by simp
    have "(of_int n :: rat) = of_int 1 * 2 powi 53" using True by simp
    from rnd_representable [OF this b] show ?thesis .
  next
    case False
    with assms have "n < 2 ^ nat 53" by simp
    then have "bitlen n \<le> 53" by (simp add: bitlen_le_iff_power)
    then have b: "binade (of_int n) \<le> 0" using binade_of_int [OF pos] by simp
    have "(of_int n :: rat) = of_int n * 2 powi 0" by simp
    from rnd_representable [OF this b] show ?thesis .
  qed
qed

lemma py_int_of_int: "py_int (of_int n) = n"
  by (simp add: py_int_def)

lemma unchanged_factor:
  assumes "0 \<le> b" and "b \<le> 2 ^ 53"
  shows "py_int (fmul (float_of_int b) 1) = b"
  by (simp add: fmul_def float_of_int_def rnd_of_int_exact [OF assms] py_int_of_int)

lemma float_lit_1: "float_lit 1 = 1"
  using rnd_of_int_exact [of 1] by (simp add: float_lit_def)


section \<open>A budget update with factor 1.0\<close>

lemma attempts_succeeds:
  assumes "k < length xs"
    and "\<And>i. i < k \<Longrightarrow> failed (ads_update_asset_budget e (ads_calls s + i) ad fid nb)
           \<and> int (xs ! i) \<noteq> max_retries s - 1"
    and "\<not> failed (ads_update_asset_budget e (ads_calls s + k) ad fid nb)"
  shows "attempts e r ad fid nb f reason xs s
    = (True, record_change e r nb f reason (s\<lparr>ads_calls := ads_calls s + Suc k\<rparr>))"
  using assms
proof (induction xs arbitrary: k s)
  case Nil
  then show ?case by simp
next
  case (Cons x xs)
  let ?s1 = "s\<lparr>ads_calls := Suc (ads_calls s)\<rparr>"
  show ?case
  proof (cases k)
    case 0
    with Cons.prems(3) show ?thesis
      by (auto simp: failed_def Let_def split: ads_outcome.splits)
  next
    case (Suc k')
    from Cons.prems(2) [of 0] Suc
    have first: "failed (ads_update_asset_budget e (ads_calls s) ad fid nb)"
      and notlast: "int x \<noteq> max_retries s - 1"
      by simp_all
    have step: "attempts e r ad fid nb f reason (x # xs) s = attempts e r ad fid nb f reason xs ?s1"
      using first notlast by (auto simp: failed_def Let_def split: ads_outcome.splits)
    have k': "k' < length xs" using Cons.prems(1) Suc by simp
    have fails: "failed (ads_update_asset_budget e (ads_calls ?s1 + i) ad fid nb)
           \<and> int (xs ! i) \<noteq> max_retries ?s1 - 1" if "i < k'" for i
      using Cons.prems(2) [of "Suc i"] that Suc by simp
    have ok: "\<not> failed (ads_update_asset_budget e (ads_calls ?s1 + k') ad fid nb)"
      using Cons.prems(3) Suc by simp
    have "?s1\<lparr>ads_calls := ads_calls ?s1 + Suc k'\<rparr> = s\<lparr>ads_calls := ads_calls s + Suc k\<rparr>"
      using Suc by simp
    with Cons.IH [OF k' fails ok] step show ?thesis by simp
  qed
qed

text \<open>
  C9, amended. For an asset with non-empty \<open>ad_id\<close> and \<open>file_id\<close> and a budget from 0 to
  \<open>2^53\<close>, \<open>update_asset_budget\<close> with factor 1.0, when an attempt within the retry bound
  succeeds after the earlier ones failed, returns \<open>True\<close>, leaves the budget equal to the
  previous budget and appends one change record, with the new budget equal to the
  previous one: a factor that changes nothing has no path of its own.
\<close>

theorem unit_factor_keeps_budget:
  assumes "truthy (ad_id (heap s r))" and "truthy (file_id (heap s r))"
    and "0 \<le> budget (heap s r)" and "budget (heap s r) \<le> 2 ^ 53"
    and "k < nat (max_retries s)"
    and "\<forall>i < k. failed (ads_update_asset_budget e (ads_calls s + i) (the (ad_id (heap s r)))
           (the (file_id (heap s r))) (budget (heap s r)))"
    and "\<not> failed (ads_update_asset_budget e (ads_calls s + k) (the (ad_id (heap s r)))
           (the (file_id (heap s r))) (budget (heap s r)))"
  shows "\<exists>s' c. update_asset_budget e r (float_lit 1) reason s = (True, s')
     \<and> budget (heap s' r) = budget (heap s r)
     \<and> previous_budget (heap s' r) = Some (budget (heap s r))
     \<and> budget_changes s' = budget_changes s @ [c]
     \<and> ch_new_budget c = budget (heap s r)
     \<and> ch_previous_budget c = Some (budget (heap s r))
     \<and> ch_adjustment_factor c = float_lit 1"
proof -
  let ?b = "budget (heap s r)"
  let ?ad = "the (ad_id (heap s r))" and ?fid = "the (file_id (heap s r))"
  have nb: "py_int (fmul (float_of_int ?b) (float_lit 1)) = ?b"
    using unchanged_factor [OF assms(3,4)] by (simp add: float_lit_1)
  have len: "k < length [0..<nat (max_retries s)]" using assms(5) by simp
  have fails: "failed (ads_update_asset_budget e (ads_calls s + i) ?ad ?fid ?b)
           \<and> int ([0..<nat (max_retries s)] ! i) \<noteq> max_retries s - 1" if "i < k" for i
    using that assms(5,6) by auto
  from attempts_succeeds [OF len fails assms(7)]
  have "update_asset_budget e r (float_lit 1) reason s
    = (True, record_change e r ?b (float_lit 1) reason (s\<lparr>ads_calls := ads_calls s + Suc k\<rparr>))"
    using assms(1,2) by (simp add: update_asset_budget_def Let_def nb)
  then show ?thesis
    by (simp add: record_change_def update_budget_def Let_def)
qed

theorem unit_factor_keeps_budget_witness:
  "truthy (ad_id (heap example_manager 0)) \<and> truthy (file_id (heap example_manager 0))
   \<and> budget (heap example_manager 0) = 100
   \<and> failed (ads_update_asset_budget flaky_env 0 ''ad123'' ''a1.jpg'' 100)
   \<and> failed (ads_update_asset_budget flaky_env 1 ''ad123'' ''a1.jpg'' 100)
   \<and> \<not> failed (ads_update_asset_budget flaky_env 2 ''ad123'' ''a1.jpg'' 100)
   \<and> fst (update_asset_budget flaky_env 0 (float_lit 1) ''No change'' example_manager)
   \<and> budget (heap (snd (update_asset_budget flaky_env 0 (float_lit 1) ''No change''
        example_manager)) 0) = 100
   \<and> length (budget_changes (snd (update_asset_budget flaky_env 0 (float_lit 1) ''No change''
        example_manager))) = 1"
proof -
  have fields: "max_retries example_manager = 3" "ads_calls example_manager = 0"
      "budget_changes example_manager = []" "heap example_manager 0 = example_heap 0"
    by (simp_all add: example_manager_def)
  have a0: "ad_id (example_heap 0) = Some ''ad123''" "file_id (example_heap 0) = Some ''a1.jpg''"
      "budget (example_heap 0) = 100"
    by (simp_all add: example_heap_def example_asset_def Asset_def)
  have ids: "truthy (ad_id (heap example_manager 0))" "truthy (file_id (heap example_manager 0))"
    by (simp_all add: fields a0 truthy_def)
  have calls: "failed (ads_update_asset_budget flaky_env 0 ''ad123'' ''a1.jpg'' 100)"
      "failed (ads_update_asset_budget flaky_env 1 ''ad123'' ''a1.jpg'' 100)"
      "\<not> failed (ads_update_asset_budget flaky_env 2 ''ad123'' ''a1.jpg'' 100)"
    by (simp_all add: flaky_env_def accepting_env_def failed_def has_error_def)
  have lo: "0 \<le> budget (heap example_manager 0)" and hi: "budget (heap example_manager 0) \<le> 2 ^ 53"
    by (simp_all add: fields a0)
  have k: "2 < nat (max_retries example_manager)" by (simp add: fields)
  have before: "\<forall>i < 2. failed (ads_update_asset_budget flaky_env (ads_calls example_manager + i)
      (the (ad_id (heap example_manager 0))) (the (file_id (heap example_manager 0)))
      (budget (heap example_manager 0)))"
    by (simp add: fields a0 flaky_env_def accepting_env_def failed_def has_error_def)
  have at: "\<not> failed (ads_update_asset_budget flaky_env (ads_calls example_manager + 2)
      (the (ad_id (heap example_manager 0))) (the (file_id (heap example_manager 0)))
      (budget (heap example_manager 0)))"
    by (simp add: fields a0 flaky_env_def accepting_env_def failed_def has_error_def)
  from unit_factor_keeps_budget [OF ids lo hi k before at, of "''No change''"]
  obtain s' c where "update_asset_budget flaky_env 0 (float_lit 1) ''No change'' example_manager = (True, s')"
    "budget (heap s' 0) = 100" "budget_changes s' = budget_changes example_manager @ [c]"
    by (auto simp: fields a0)
  with ids calls show ?thesis by (simp add: fields a0)
qed

text \<open>
  C9, as stated, covers every non-negative integer budget. The new budget is
  \<open>int(budget * 1.0)\<close>, and the product converts the budget to a float first: above
  \<open>2^53\<close> not every integer is one, and the budget \<open>2^53 + 1\<close> becomes \<open>2^53\<close>.
\<close>

lemma large_budget_rounds:
  "py_int (fmul (float_of_int 9007199254740993) (float_lit 1)) = 9007199254740992"
  by code_simp

theorem unit_factor_changes_large_budget:
  "budget (heap large_budget_manager 0) = 9007199254740993
   \<and> fst (update_asset_budget accepting_env 0 (float_lit 1) ''No change'' large_budget_manager)
   \<and> budget (heap (snd (update_asset_budget accepting_env 0 (float_lit 1) ''No change''
        large_budget_manager)) 0) = 9007199254740992
   \<and> previous_budget (heap (snd (update_asset_budget accepting_env 0 (float_lit 1) ''No change''
        large_budget_manager)) 0) = Some 9007199254740993"
  by (simp add: update_asset_budget_def Let_def large_budget_manager_def example_manager_def
      example_asset_def Asset_def truthy_def large_budget_rounds accepting_env_def has_error_def
      record_change_def update_budget_def upt_rec [of 0])

section \<open>Country and language of a parsed name\<close>

lemma split_unfold:
  "split c s = takeWhile (\<lambda>x. x \<noteq> c) s
     # (if c \<in> set s then split c (tl (dropWhile (\<lambda>x. x \<noteq> c) s)) else [])"
  by (induction s) auto

lemma split_first: "index (split c s) 0 = Inr (takeWhile (\<lambda>x. x \<noteq> c) s)"
  by (subst split_unfold) (simp add: index_def)

lemma split_second:
  assumes "c \<in> set s"
  shows "index (split c s) (Suc 0)
    = Inr (takeWhile (\<lambda>x. x \<noteq> c) (tl (dropWhile (\<lambda>x. x \<noteq> c) s)))"
proof -
  let ?t = "tl (dropWhile (\<lambda>x. x \<noteq> c) s)"
  have "split c s = takeWhile (\<lambda>x. x \<noteq> c) s # split c ?t"
    using assms by (subst split_unfold) simp
  also have "split c ?t = takeWhile (\<lambda>x. x \<noteq> c) ?t
     # (if c \<in> set ?t then split c (tl (dropWhile (\<lambda>x. x \<noteq> c) ?t)) else [])"
    by (rule split_unfold)
  finally show ?thesis by (simp add: index_def)
qed

text \<open>
  C7, amended. \<open>create_asset_from_parsed_data\<close> never raises. Without a hyphen in
  \<open>country_language\<close> (or without the key), country and language are both empty. With
  one, the country is the text before the first hyphen and the language the text between
  the first hyphen and the second; that is all the text after the first hyphen when
  there is no second one, as in every \<open>country_language\<close> the pattern lets through.
\<close>

theorem create_asset_country_language:
  "\<exists>a. create_asset_from_parsed_data fname d = Inr a
     \<and> (CHR ''-'' \<notin> set (get d ''country_language'') \<longrightarrow> country a = [] \<and> language a = [])
     \<and> (CHR ''-'' \<in> set (get d ''country_language'') \<longrightarrow>
          country a = takeWhile (\<lambda>x. x \<noteq> CHR ''-'') (get d ''country_language'')
          \<and> language a = takeWhile (\<lambda>x. x \<noteq> CHR ''-'')
               (tl (dropWhile (\<lambda>x. x \<noteq> CHR ''-'') (get d ''country_language''))))
     \<and> (CHR ''-'' \<in> set (get d ''country_language'')
          \<and> CHR ''-'' \<notin> set (tl (dropWhile (\<lambda>x. x \<noteq> CHR ''-'') (get d ''country_language'')))
          \<longrightarrow> language a = tl (dropWhile (\<lambda>x. x \<noteq> CHR ''-'') (get d ''country_language'')))"
proof (cases "CHR ''-'' \<in> set (get d ''country_language'')")
  case False
  then show ?thesis
    by (simp add: create_asset_from_parsed_data_def Let_def Asset_def)
next
  case True
  have all: "takeWhile (\<lambda>x. x \<noteq> CHR ''-'') t = t" if "CHR ''-'' \<notin> set t" for t :: string
    using that by (induction t) auto
  from True show ?thesis
    by (auto simp: create_asset_from_parsed_data_def Let_def Asset_def split_first
        split_second [OF True] all)
qed

theorem create_asset_country_language_witness:
  "get [(''country_language'', ''US-EN''), (''buyout_code'', ''BUY123'')] ''country_language'' = ''US-EN''
   \<and> (\<exists>a. create_asset_from_parsed_data ''f.jpg''
          [(''country_language'', ''US-EN''), (''buyout_code'', ''BUY123'')] = Inr a
        \<and> country a = ''US'' \<and> language a = ''EN'')"
proof -
  let ?d = "[(''country_language'', ''US-EN''), (''buyout_code'', ''BUY123'')]"
  have g: "get ?d ''country_language'' = ''US-EN''" by (simp add: get_def)
  from create_asset_country_language [of "''f.jpg''" ?d] g show ?thesis
    by auto
qed

text \<open>
  C7, as stated, makes the language all the text after the first hyphen. The code takes
  \<open>split("-")[1]\<close>: of \<open>A-B-C\<close> the language is \<open>B\<close>, not \<open>B-C\<close>.
\<close>

theorem language_stops_at_second_hyphen:
  "\<exists>a. create_asset_from_parsed_data ''f.jpg'' [(''country_language'', ''A-B-C'')] = Inr a
     \<and> country a = ''A''
     \<and> language a = ''B''
     \<and> tl (dropWhile (\<lambda>x. x \<noteq> CHR ''-'') ''A-B-C'') = ''B-C''"
  by (simp add: create_asset_from_parsed_data_def get_def index_def Asset_def)

section \<open>Parsing a file name\<close>

lemma pipe_not_space: "CHR ''|'' \<notin> whitespace"
  by (simp add: whitespace_def)

lemma newline_space: "newline \<in> whitespace"
  by (simp add: whitespace_def newline_def)

lemma alnum_not_space: "x \<in> alnum \<Longrightarrow> x \<notin> whitespace"
  by (auto simp: alnum_def uppercase_def lowercase_def digits_def whitespace_def)

lemma pipe_not_alnum: "CHR ''|'' \<notin> alnum"
  by (simp add: alnum_def uppercase_def lowercase_def digits_def)

lemma fold_consume_outside:
  "cur st = None \<Longrightarrow> fold consume w st = st\<lparr>pos := pos st + length w\<rparr>"
  by (induction w arbitrary: st) (simp_all add: consume_def)

lemma fold_consume_inside:
  "cur st = Some g \<Longrightarrow> fold consume w st = st\<lparr>pos := pos st + length w, cur := Some (g @ w)\<rparr>"
  by (induction w arbitrary: st g) (simp_all add: consume_def)

lemma outside_update: "cur st = None \<Longrightarrow> st\<lparr>pos := n, cur := None\<rparr> = st\<lparr>pos := n\<rparr>"
  by (cases st) simp

lemma star_takes_all:
  "set w \<subseteq> c \<Longrightarrow> matches (Star c # r) s (fold consume w st) = Some res
   \<Longrightarrow> matches (Star c # r) (w @ s) st = Some res"
  by (induction w arbitrary: st) simp_all

lemma star_stops: "s = [] \<or> hd s \<notin> c \<Longrightarrow> matches (Star c # r) s st = matches r s st"
  by (cases s) auto

lemma space_then_pipe:
  "set w \<subseteq> whitespace
   \<Longrightarrow> matches (Star whitespace # One pipe # r) (w @ CHR ''|'' # s) st
     = matches r s (consume CHR ''|'' (fold consume w st))"
proof (induction w arbitrary: st)
  case Nil
  then show ?case by (simp add: pipe_not_space pipe_def)
next
  case (Cons x w)
  then have "x \<in> whitespace" "x \<noteq> CHR ''|''" using pipe_not_space by auto
  with Cons show ?case by (simp add: pipe_def split: option.splits)
qed

lemma space_without_pipe:
  "set w \<subseteq> whitespace \<Longrightarrow> x \<notin> whitespace \<Longrightarrow> x \<noteq> CHR ''|''
   \<Longrightarrow> matches (Star whitespace # One pipe # r) (w @ x # s) st = None"
proof (induction w arbitrary: st)
  case Nil
  then show ?case by (simp add: pipe_def)
next
  case (Cons y w)
  then have "y \<in> whitespace" "y \<noteq> CHR ''|''" using pipe_not_space by auto
  with Cons show ?case by (simp add: pipe_def)
qed

lemma leading_space:
  assumes "v \<noteq> []" and "last v \<notin> whitespace"
  shows "\<exists>w y z. v = w @ y # z \<and> set w \<subseteq> whitespace \<and> y \<notin> whitespace"
proof -
  let ?w = "takeWhile (\<lambda>x. x \<in> whitespace) v" and ?d = "dropWhile (\<lambda>x. x \<in> whitespace) v"
  have "?d \<noteq> []"
    using assms by (metis (mono_tags, lifting) dropWhile_eq_Nil_conv last_in_set)
  then obtain y z where d: "?d = y # z" by (cases ?d) auto
  then have "y \<notin> whitespace" by (metis hd_dropWhile list.sel(1) list.distinct(1))
  moreover have "v = ?w @ y # z" using d by (metis takeWhile_dropWhile_id)
  moreover have "set ?w \<subseteq> whitespace" by (auto dest: set_takeWhileD)
  ultimately show ?thesis by blast
qed

lemma lazy_star_runs:
  assumes "CHR ''|'' \<notin> set u" and "newline \<notin> set u"
    and "u = [] \<or> last u \<notin> whitespace" and "set w \<subseteq> whitespace"
    and "matches (Close_Group # Star whitespace # One pipe # r) (w @ CHR ''|'' # t)
           (fold consume u st) = Some res"
  shows "matches (Lazy_Star dot # Close_Group # Star whitespace # One pipe # r)
           (u @ w @ CHR ''|'' # t) st = Some res"
  using assms
proof (induction u arbitrary: st)
  case Nil
  then show ?case by (cases w) simp_all
next
  case (Cons x u)
  have last: "last (x # u) \<notin> whitespace" using Cons.prems(3) by simp
  from leading_space [OF _ last] obtain w0 y z where
    v: "x # u = w0 @ y # z" and w0: "set w0 \<subseteq> whitespace" and y: "y \<notin> whitespace"
    by blast
  have "y \<in> set (x # u)" using v by (metis in_set_conv_decomp)
  then have ynp: "y \<noteq> CHR ''|''" using Cons.prems(1) by auto
  have "matches (Star whitespace # One pipe # r) (w0 @ y # (z @ w @ CHR ''|'' # t)) st' = None" for st'
    by (rule space_without_pipe [OF w0 y ynp])
  then have none: "matches (Close_Group # Star whitespace # One pipe # r)
      ((x # u) @ w @ CHR ''|'' # t) st = None"
    by (simp add: v)
  have xdot: "x \<in> dot" using Cons.prems(2) by (auto simp: dot_def)
  have u: "u = [] \<or> last u \<notin> whitespace" using Cons.prems(3) by (cases u) auto
  have "matches (Lazy_Star dot # Close_Group # Star whitespace # One pipe # r)
           (u @ w @ CHR ''|'' # t) (consume x st) = Some res"
    using Cons.IH [of "consume x st"] Cons.prems u by simp
  with none xdot show ?case by simp
qed


lemma lazy_field_matches:
  assumes "cur st = None" and "blank p" and "blank q" and "text_span f" and "blank p'"
    and "matches (Star whitespace # One pipe # r) (p' @ CHR ''|'' # t)
           (st\<lparr>pos := pos st + length p + 1 + length q + length f,
               groups := groups st @ [f], cur := None\<rparr>) = Some res"
  shows "matches (Star whitespace # One pipe # Star whitespace # Open_Group # Lazy_Plus dot
             # Close_Group # Star whitespace # One pipe # r)
           (p @ CHR ''|'' # q @ f @ p' @ CHR ''|'' # t) st = Some res"
proof -
  let ?R = "Star whitespace # One pipe # r"
  let ?rest = "p' @ CHR ''|'' # t"
  obtain x u where f: "f = x # u" using assms(4) by (cases f) (auto simp: text_span_def)
  have x: "x \<notin> whitespace" "x \<in> dot" using assms(4) f by (auto simp: text_span_def dot_def)
  have u: "CHR ''|'' \<notin> set u" "newline \<notin> set u" "u = [] \<or> last u \<notin> whitespace"
    using assms(4) f by (auto simp: text_span_def split: if_splits)
  let ?st1 = "st\<lparr>pos := pos st + length p + 1\<rparr>"
  let ?st2 = "st\<lparr>pos := pos st + length p + 1 + length q\<rparr>"
  let ?st3 = "st\<lparr>pos := pos st + length p + 1 + length q + 1, cur := Some [x]\<rparr>"
  have close: "matches (Close_Group # ?R) ?rest (fold consume u ?st3) = Some res"
    using assms(6) by (simp add: fold_consume_inside f)
  have "matches (Lazy_Star dot # Close_Group # ?R) (u @ ?rest) ?st3 = Some res"
    using lazy_star_runs [OF u _ close] assms(5) by (simp add: blank_def)
  then have "matches (Open_Group # Lazy_Plus dot # Close_Group # ?R) (f @ ?rest) ?st2 = Some res"
    using x by (simp add: f consume_def assms(1))
  then have "matches (Star whitespace # Open_Group # Lazy_Plus dot # Close_Group # ?R)
      (f @ ?rest) (fold consume q ?st1) = Some res"
    using x by (simp add: star_stops f fold_consume_outside assms(1))
  then have "matches (Star whitespace # Open_Group # Lazy_Plus dot # Close_Group # ?R)
      (q @ f @ ?rest) ?st1 = Some res"
    using assms(3) by (intro star_takes_all [where w = q and s = "f @ ?rest"]) (simp_all add: blank_def)
  then show ?thesis
    using assms(2) by (simp add: space_then_pipe blank_def fold_consume_outside assms(1) consume_def outside_update)
qed

lemma buyout_field_matches:
  assumes "cur st = None" and "blank p" and "blank q" and "b \<noteq> []" and "set b \<subseteq> alnum"
    and "blank p'"
    and "matches (Star whitespace # One pipe # r) (p' @ CHR ''|'' # t)
           (st\<lparr>pos := pos st + length p + 1 + length q + length b,
               groups := groups st @ [b], cur := None\<rparr>) = Some res"
  shows "matches (Star whitespace # One pipe # Star whitespace # Open_Group # Plus alnum
             # Close_Group # Star whitespace # One pipe # r)
           (p @ CHR ''|'' # q @ b @ p' @ CHR ''|'' # t) st = Some res"
proof -
  let ?R = "Star whitespace # One pipe # r"
  let ?rest = "p' @ CHR ''|'' # t"
  obtain x u where b: "b = x # u" using assms(4) by (cases b) auto
  have x: "x \<notin> whitespace" "x \<in> alnum" using assms(5) b alnum_not_space by auto
  have u: "set u \<subseteq> alnum" using assms(5) b by auto
  have stop: "?rest = [] \<or> hd ?rest \<notin> alnum"
    using assms(6) pipe_not_alnum alnum_not_space by (cases p') (auto simp: blank_def)
  let ?st1 = "st\<lparr>pos := pos st + length p + 1\<rparr>"
  let ?st2 = "st\<lparr>pos := pos st + length p + 1 + length q\<rparr>"
  let ?st3 = "st\<lparr>pos := pos st + length p + 1 + length q + 1, cur := Some [x]\<rparr>"
  have "matches (Star alnum # Close_Group # ?R) ?rest (fold consume u ?st3) = Some res"
    using assms(7) by (simp add: star_stops [OF stop] fold_consume_inside b)
  then have "matches (Star alnum # Close_Group # ?R) (u @ ?rest) ?st3 = Some res"
    using u by (intro star_takes_all [where w = u and s = ?rest])
  then have "matches (Open_Group # Plus alnum # Close_Group # ?R) (b @ ?rest) ?st2 = Some res"
    using x by (simp add: b consume_def assms(1))
  then have "matches (Star whitespace # Open_Group # Plus alnum # Close_Group # ?R)
      (b @ ?rest) (fold consume q ?st1) = Some res"
    using x by (simp add: star_stops b fold_consume_outside assms(1))
  then have "matches (Star whitespace # Open_Group # Plus alnum # Close_Group # ?R)
      (q @ b @ ?rest) ?st1 = Some res"
    using assms(3) by (intro star_takes_all [where w = q and s = "b @ ?rest"]) (simp_all add: blank_def)
  then show ?thesis
    using assms(2) by (simp add: space_then_pipe blank_def fold_consume_outside assms(1) consume_def outside_update)
qed

lemma final_field_matches:
  assumes "cur st = None" and "blank p" and "blank q" and "text_span f" and "blank p'"
    and "newline \<notin> set p'"
  shows "matches [Star whitespace, One pipe, Star whitespace, Open_Group, Plus dot, Close_Group, Eol]
           (p @ CHR ''|'' # q @ f @ p') st = Some (groups st @ [f @ p'], [])"
proof -
  obtain x u where f: "f = x # u" using assms(4) by (cases f) (auto simp: text_span_def)
  have x: "x \<notin> whitespace" "x \<in> dot" using assms(4) f by (auto simp: text_span_def dot_def)
  have u: "set (u @ p') \<subseteq> dot" using assms(4,6) f by (auto simp: text_span_def dot_def)
  let ?st1 = "st\<lparr>pos := pos st + length p + 1\<rparr>"
  let ?st2 = "st\<lparr>pos := pos st + length p + 1 + length q\<rparr>"
  let ?st3 = "st\<lparr>pos := pos st + length p + 1 + length q + 1, cur := Some [x]\<rparr>"
  have "matches [Star dot, Close_Group, Eol] [] (fold consume (u @ p') ?st3)
      = Some (groups st @ [f @ p'], [])"
    by (simp add: fold_consume_inside f del: fold_append)
  then have "matches [Star dot, Close_Group, Eol] ((u @ p') @ []) ?st3
      = Some (groups st @ [f @ p'], [])"
    using u by (intro star_takes_all)
  then have "matches [Open_Group, Plus dot, Close_Group, Eol] (f @ p') ?st2
      = Some (groups st @ [f @ p'], [])"
    using x by (simp add: f consume_def assms(1))
  then have "matches [Star whitespace, Open_Group, Plus dot, Close_Group, Eol]
      (f @ p') (fold consume q ?st1) = Some (groups st @ [f @ p'], [])"
    using x by (simp add: star_stops f fold_consume_outside assms(1))
  then have "matches [Star whitespace, Open_Group, Plus dot, Close_Group, Eol]
      (q @ f @ p') ?st1 = Some (groups st @ [f @ p'], [])"
    using assms(3) by (intro star_takes_all [where w = q and s = "f @ p'"]) (simp_all add: blank_def)
  then show ?thesis
    using assms(2) by (simp add: space_then_pipe blank_def fold_consume_outside assms(1) consume_def outside_update)
qed

lemma final_field_step:
  assumes "blank p" and "blank q" and "text_span f" and "blank p'" and "newline \<notin> set p'"
  shows "\<forall>st. cur st = None \<longrightarrow>
    matches [Star whitespace, One pipe, Star whitespace, Open_Group, Plus dot, Close_Group, Eol]
      (p @ CHR ''|'' # q @ f @ p') st = Some (groups st @ [f @ p'], [])"
  using final_field_matches [OF _ assms] by blast

lemma lazy_field_step:
  assumes "\<forall>st. cur st = None \<longrightarrow>
      matches (Star whitespace # One pipe # r) (p' @ CHR ''|'' # t) st = Some (groups st @ gs, [])"
    and "blank p" and "blank q" and "text_span f" and "blank p'"
  shows "\<forall>st. cur st = None \<longrightarrow>
    matches (Star whitespace # One pipe # Star whitespace # Open_Group # Lazy_Plus dot
             # Close_Group # Star whitespace # One pipe # r)
           (p @ CHR ''|'' # q @ f @ p' @ CHR ''|'' # t) st = Some (groups st @ f # gs, [])"
proof (intro allI impI)
  fix st :: matching
  assume c: "cur st = None"
  show "matches (Star whitespace # One pipe # Star whitespace # Open_Group # Lazy_Plus dot
             # Close_Group # Star whitespace # One pipe # r)
           (p @ CHR ''|'' # q @ f @ p' @ CHR ''|'' # t) st = Some (groups st @ f # gs, [])"
  proof (rule lazy_field_matches [OF c assms(2,3,4,5)])
    show "matches (Star whitespace # One pipe # r) (p' @ CHR ''|'' # t)
       (st\<lparr>pos := pos st + length p + 1 + length q + length f, groups := groups st @ [f],
            cur := None\<rparr>) = Some (groups st @ f # gs, [])"
      using assms(1) by simp
  qed
qed

lemma buyout_field_step:
  assumes "\<forall>st. cur st = None \<longrightarrow>
      matches (Star whitespace # One pipe # r) (p' @ CHR ''|'' # t) st = Some (groups st @ gs, [])"
    and "blank p" and "blank q" and "b \<noteq> []" and "set b \<subseteq> alnum" and "blank p'"
  shows "\<forall>st. cur st = None \<longrightarrow>
    matches (Star whitespace # One pipe # Star whitespace # Open_Group # Plus alnum
             # Close_Group # Star whitespace # One pipe # r)
           (p @ CHR ''|'' # q @ b @ p' @ CHR ''|'' # t) st = Some (groups st @ b # gs, [])"
proof (intro allI impI)
  fix st :: matching
  assume c: "cur st = None"
  show "matches (Star whitespace # One pipe # Star whitespace # Open_Group # Plus alnum
             # Close_Group # Star whitespace # One pipe # r)
           (p @ CHR ''|'' # q @ b @ p' @ CHR ''|'' # t) st = Some (groups st @ b # gs, [])"
  proof (rule buyout_field_matches [OF c assms(2,3,4,5,6)])
    show "matches (Star whitespace # One pipe # r) (p' @ CHR ''|'' # t)
       (st\<lparr>pos := pos st + length p + 1 + length q + length b, groups := groups st @ [b],
            cur := None\<rparr>) = Some (groups st @ b # gs, [])"
      using assms(1) by simp
  qed
qed

lemma head_matches:
  assumes "c1 \<in> uppercase" and "c2 \<in> uppercase" and "l1 \<in> uppercase" and "l2 \<in> uppercase"
  shows "matches (Bol # Open_Group # One uppercase # One uppercase # One {CHR ''-''}
             # One uppercase # One uppercase # Close_Group # r)
           (c1 # c2 # CHR ''-'' # l1 # l2 # s) \<lparr>pos = 0, groups = [], cur = None\<rparr>
    = matches r s \<lparr>pos = 5, groups = [[c1, c2, CHR ''-'', l1, l2]], cur = None\<rparr>"
  using assms by (simp add: consume_def eval_nat_numeral)

lemma pattern_unfolded:
  "pattern =
     Bol # Open_Group # One uppercase # One uppercase # One {CHR ''-''} # One uppercase
     # One uppercase # Close_Group
     # Star whitespace # One pipe # Star whitespace # Open_Group # Plus alnum # Close_Group
     # Star whitespace # One pipe # Star whitespace # Open_Group # Lazy_Plus dot # Close_Group
     # Star whitespace # One pipe # Star whitespace # Open_Group # Lazy_Plus dot # Close_Group
     # Star whitespace # One pipe # Star whitespace # Open_Group # Lazy_Plus dot # Close_Group
     # Star whitespace # One pipe # Star whitespace # Open_Group # Lazy_Plus dot # Close_Group
     # Star whitespace # One pipe # Star whitespace # Open_Group # Lazy_Plus dot # Close_Group
     # [Star whitespace, One pipe, Star whitespace, Open_Group, Plus dot, Close_Group, Eol]"
  by (simp add: pattern_def separator_def lazy_field_def)

lemma pattern_matches_padded:
  assumes "c1 \<in> uppercase" and "c2 \<in> uppercase" and "l1 \<in> uppercase" and "l2 \<in> uppercase"
    and "blank p1" and "blank q2" and "b \<noteq> []" and "set b \<subseteq> alnum" and "blank p2"
    and "blank q3" and "text_span f3" and "blank p3"
    and "blank q4" and "text_span f4" and "blank p4"
    and "blank q5" and "text_span f5" and "blank p5"
    and "blank q6" and "text_span f6" and "blank p6"
    and "blank q7" and "text_span f7" and "blank p7"
    and "blank q8" and "text_span f8" and "blank p8" and "newline \<notin> set p8"
  shows "re_match pattern
      ([c1, c2, CHR ''-'', l1, l2] @ p1 @ CHR ''|'' # q2 @ b @ p2 @ CHR ''|'' # q3 @ f3 @ p3
        @ CHR ''|'' # q4 @ f4 @ p4 @ CHR ''|'' # q5 @ f5 @ p5 @ CHR ''|'' # q6 @ f6 @ p6
        @ CHR ''|'' # q7 @ f7 @ p7 @ CHR ''|'' # q8 @ f8 @ p8)
    = Some ([[c1, c2, CHR ''-'', l1, l2], b, f3, f4, f5, f6, f7, f8 @ p8], [])"
proof -
  note s8 = final_field_step [OF assms(24,25,26,27,28)]
  note s7 = lazy_field_step [OF s8 assms(21,22,23,24)]
  note s6 = lazy_field_step [OF s7 assms(18,19,20,21)]
  note s5 = lazy_field_step [OF s6 assms(15,16,17,18)]
  note s4 = lazy_field_step [OF s5 assms(12,13,14,15)]
  note s3 = lazy_field_step [OF s4 assms(9,10,11,12)]
  note s2 = buyout_field_step [OF s3 assms(5,6,7,8,9)]
  let ?tail = "p1 @ CHR ''|'' # q2 @ b @ p2 @ CHR ''|'' # q3 @ f3 @ p3
        @ CHR ''|'' # q4 @ f4 @ p4 @ CHR ''|'' # q5 @ f5 @ p5 @ CHR ''|'' # q6 @ f6 @ p6
        @ CHR ''|'' # q7 @ f7 @ p7 @ CHR ''|'' # q8 @ f8 @ p8"
  let ?st = "\<lparr>pos = 5, groups = [[c1, c2, CHR ''-'', l1, l2]], cur = None\<rparr>"
  have c: "cur ?st = None" by simp
  have g: "groups ?st @ [b, f3, f4, f5, f6, f7, f8 @ p8]
    = [[c1, c2, CHR ''-'', l1, l2], b, f3, f4, f5, f6, f7, f8 @ p8]" by simp
  show ?thesis
    unfolding re_match_def pattern_unfolded append_Cons append_Nil
    by (simp only: head_matches [OF assms(1-4)] s2 [rule_format, OF c] g)
qed

lemma strip_padded:
  assumes "blank q" and "blank p" and "f \<noteq> []" and "hd f \<notin> whitespace" and "last f \<notin> whitespace"
  shows "strip (q @ f @ p) = f"
proof -
  have "dropWhile (\<lambda>c. c \<in> whitespace) (q @ f @ p) = f @ p"
    using assms(1,3,4) by (cases f) (auto simp: blank_def dropWhile_append3 dropWhile_append)
  moreover have "dropWhile (\<lambda>c. c \<in> whitespace) (rev p @ rev f) = rev f"
  proof -
    have "rev f \<noteq> []" "hd (rev f) \<notin> whitespace"
      using assms(3,5) by (simp_all add: hd_rev)
    then show ?thesis
      using assms(2) by (cases "rev f") (auto simp: blank_def dropWhile_append)
  qed
  ultimately show ?thesis by (simp add: strip_def)
qed

lemma strip_decomp:
  assumes "strip r \<noteq> []"
  shows "\<exists>q p. r = q @ strip r @ p \<and> blank q \<and> blank p
    \<and> hd (strip r) \<notin> whitespace \<and> last (strip r) \<notin> whitespace"
proof -
  let ?ws = "\<lambda>c. c \<in> whitespace"
  let ?q = "takeWhile ?ws r" and ?d = "dropWhile ?ws r"
  let ?p = "rev (takeWhile ?ws (rev ?d))"
  have s: "strip r = rev (dropWhile ?ws (rev ?d))" by (simp add: strip_def)
  have "rev (dropWhile ?ws (rev ?d)) @ rev (takeWhile ?ws (rev ?d))
    = rev (takeWhile ?ws (rev ?d) @ dropWhile ?ws (rev ?d))" by (simp only: rev_append)
  also have "\<dots> = rev (rev ?d)" by (simp only: takeWhile_dropWhile_id)
  also have "\<dots> = ?d" by (simp only: rev_rev_ident)
  finally have d: "?d = strip r @ ?p" by (simp only: s)
  then have r: "r = ?q @ strip r @ ?p" by (metis takeWhile_dropWhile_id)
  have bq: "blank ?q" by (auto simp: blank_def dest: set_takeWhileD)
  have bp: "blank ?p" by (auto simp: blank_def dest: set_takeWhileD)
  have "?d \<noteq> []" using d assms by (metis append_is_Nil_conv)
  then have "hd ?d \<notin> whitespace" by (rule hd_dropWhile)
  then have h: "hd (strip r) \<notin> whitespace" using d assms by (metis hd_append2)
  have "dropWhile ?ws (rev ?d) \<noteq> []" using assms s by (metis rev_is_Nil_conv)
  then have "hd (dropWhile ?ws (rev ?d)) \<notin> whitespace" by (rule hd_dropWhile)
  then have l: "last (strip r) \<notin> whitespace" using s assms by (simp add: last_rev)
  from r bq bp h l show ?thesis by blast
qed

lemma plain_field_decomp:
  assumes "plain_field r"
  shows "\<exists>q p. r = q @ strip r @ p \<and> blank q \<and> blank p \<and> newline \<notin> set p
    \<and> text_span (strip r)"
proof -
  from assms have ne: "strip r \<noteq> []" by (simp add: plain_field_def)
  from strip_decomp [OF ne] obtain q p where
    r: "r = q @ strip r @ p" and b: "blank q" "blank p"
    and hl: "hd (strip r) \<notin> whitespace" "last (strip r) \<notin> whitespace"
    by blast
  have "set (strip r) \<subseteq> set r" "set p \<subseteq> set r"
    using r by (metis Un_iff set_append subsetI)+
  with assms have "CHR ''|'' \<notin> set (strip r)" "newline \<notin> set (strip r)" "newline \<notin> set p"
    by (auto simp: plain_field_def)
  with ne hl have "text_span (strip r)" by (simp add: text_span_def)
  with r b \<open>newline \<notin> set p\<close> show ?thesis by blast
qed

lemma basename_plain: "CHR ''/'' \<notin> set s \<Longrightarrow> basename s = s"
proof -
  assume "CHR ''/'' \<notin> set s"
  then have t: "takeWhile (\<lambda>c. c \<noteq> CHR ''/'') (rev s) = rev s"
    by (intro takeWhile_eq_all_conv [THEN iffD2]) auto
  show ?thesis unfolding basename_def t by simp
qed

lemma uppercase_facts:
  "x \<in> uppercase \<Longrightarrow> x \<notin> whitespace" "x \<in> uppercase \<Longrightarrow> x \<noteq> CHR ''/''"
  by (auto simp: uppercase_def whitespace_def)

lemma blank_no_slash: "blank p \<Longrightarrow> CHR ''/'' \<notin> set p"
  by (auto simp: blank_def whitespace_def)

text \<open>Whatever \<open>parse_filename\<close> returns, each field of it is trimmed.\<close>

lemma strip_idem: "strip (strip g) = strip g"
proof (cases "strip g = []")
  case True
  have "strip [] = []" by (simp add: strip_def)
  with True show ?thesis by (simp only:)
next
  case False
  from strip_decomp [OF False] have hl: "hd (strip g) \<notin> whitespace" "last (strip g) \<notin> whitespace"
    by blast+
  have b: "blank []" by (simp add: blank_def)
  have "strip ([] @ strip g @ []) = strip g"
    by (rule strip_padded [OF b b False hl])
  then show ?thesis by (simp only: append_Nil append_Nil2)
qed

lemma parse_filename_trimmed:
  assumes "parse_filename fname = Some d" and "(k, v) \<in> set d" and "k \<noteq> ''original_filename''"
  shows "strip v = v"
proof -
  define keys where "keys = [''country_language'', ''buyout_code'', ''concept'', ''audience'',
                 ''transaction_side'', ''asset_format'', ''duration'', ''file_format'']"
  have p: "parse_filename fname = (case re_match pattern (basename fname) of None \<Rightarrow> None
      | Some (gs, rest) \<Rightarrow> Some (zip keys (map strip gs) @ [(''original_filename'', basename fname)]))"
    unfolding parse_filename_def Let_def keys_def ..
  from assms(1) obtain gs rest where
    d: "d = zip keys (map strip gs) @ [(''original_filename'', basename fname)]"
    unfolding p by (cases "re_match pattern (basename fname)") auto
  from assms(2,3) have "(k, v) \<in> set (zip keys (map strip gs))"
    unfolding d by simp
  then have "v \<in> set (map strip gs)" by (rule set_zip_rightD)
  then show ?thesis by (auto simp: strip_idem)
qed

text \<open>
  C6, amended. Take a file name without a slash: two uppercase letters, a hyphen, two
  uppercase letters, optional whitespace, and then seven fields, each after a pipe. When
  no field holds a pipe or a newline, every field has a character that is not whitespace,
  and the first field, the buyout code, is letters and digits once trimmed,
  \<open>parse_filename\<close> succeeds and returns every field trimmed of surrounding whitespace.
  And a name whose base name the pattern does not match gives \<open>None\<close>; the function
  has no exception to raise.
\<close>

theorem parse_filename_documented_shape:
  assumes "c1 \<in> uppercase" and "c2 \<in> uppercase" and "l1 \<in> uppercase" and "l2 \<in> uppercase"
    and "blank p"
    and "plain_field r2" and "set (strip r2) \<subseteq> alnum"
    and "plain_field r3" and "plain_field r4" and "plain_field r5" and "plain_field r6"
    and "plain_field r7" and "plain_field r8"
    and "fname = [c1, c2, CHR ''-'', l1, l2] @ p @ CHR ''|'' # r2 @ CHR ''|'' # r3 @ CHR ''|'' # r4
           @ CHR ''|'' # r5 @ CHR ''|'' # r6 @ CHR ''|'' # r7 @ CHR ''|'' # r8"
  shows "parse_filename fname
       = Some [(''country_language'', [c1, c2, CHR ''-'', l1, l2]), (''buyout_code'', strip r2),
               (''concept'', strip r3), (''audience'', strip r4),
               (''transaction_side'', strip r5), (''asset_format'', strip r6),
               (''duration'', strip r7), (''file_format'', strip r8),
               (''original_filename'', fname)]
     \<and> (re_match pattern (basename other) = None \<longrightarrow> parse_filename other = None)"
proof -
  let ?cl = "[c1, c2, CHR ''-'', l1, l2]"
  from plain_field_decomp [OF assms(6)] obtain q2 p2 where
    r2: "r2 = q2 @ strip r2 @ p2" "blank q2" "blank p2" "text_span (strip r2)" by blast
  from plain_field_decomp [OF assms(8)] obtain q3 p3 where
    r3: "r3 = q3 @ strip r3 @ p3" "blank q3" "blank p3" "text_span (strip r3)" by blast
  from plain_field_decomp [OF assms(9)] obtain q4 p4 where
    r4: "r4 = q4 @ strip r4 @ p4" "blank q4" "blank p4" "text_span (strip r4)" by blast
  from plain_field_decomp [OF assms(10)] obtain q5 p5 where
    r5: "r5 = q5 @ strip r5 @ p5" "blank q5" "blank p5" "text_span (strip r5)" by blast
  from plain_field_decomp [OF assms(11)] obtain q6 p6 where
    r6: "r6 = q6 @ strip r6 @ p6" "blank q6" "blank p6" "text_span (strip r6)" by blast
  from plain_field_decomp [OF assms(12)] obtain q7 p7 where
    r7: "r7 = q7 @ strip r7 @ p7" "blank q7" "blank p7" "text_span (strip r7)" by blast
  from plain_field_decomp [OF assms(13)] obtain q8 p8 where
    r8: "r8 = q8 @ strip r8 @ p8" "blank q8" "blank p8" "text_span (strip r8)"
    and n8: "newline \<notin> set p8" by blast
  have b: "strip r2 \<noteq> []" using r2(4) by (simp add: text_span_def)
  have shape: "fname = ?cl @ p @ CHR ''|'' # q2 @ strip r2 @ p2 @ CHR ''|'' # q3 @ strip r3 @ p3
        @ CHR ''|'' # q4 @ strip r4 @ p4 @ CHR ''|'' # q5 @ strip r5 @ p5
        @ CHR ''|'' # q6 @ strip r6 @ p6 @ CHR ''|'' # q7 @ strip r7 @ p7
        @ CHR ''|'' # q8 @ strip r8 @ p8"
    unfolding assms(14)
    using r2(1) r3(1) r4(1) r5(1) r6(1) r7(1) r8(1) by (metis append_assoc)
  have m: "re_match pattern fname
    = Some ([?cl, strip r2, strip r3, strip r4, strip r5, strip r6, strip r7, strip r8 @ p8], [])"
    unfolding shape
    by (rule pattern_matches_padded [OF assms(1-5) r2(2) b assms(7) r2(3) r3(2,4,3) r4(2,4,3)
          r5(2,4,3) r6(2,4,3) r7(2,4,3) r8(2,4,3) n8])
  have slash: "CHR ''/'' \<notin> set fname"
    unfolding assms(14)
    using assms(1-4,6,8-13) blank_no_slash [OF assms(5)] uppercase_facts(2)
    by (auto simp: plain_field_def)
  have idem: "strip f = f" if "text_span f" for f
    using strip_padded [of "[]" "[]" f] that by (simp add: text_span_def blank_def)
  have cl: "strip ?cl = ?cl"
    using strip_padded [of "[]" "[]" ?cl] uppercase_facts(1) assms(1,4) by (simp add: blank_def)
  have last: "strip (strip r8 @ p8) = strip r8"
    using strip_padded [of "[]" p8 "strip r8"] r8(3,4) by (simp add: text_span_def blank_def)
  have first: "parse_filename fname
       = Some [(''country_language'', ?cl), (''buyout_code'', strip r2),
               (''concept'', strip r3), (''audience'', strip r4),
               (''transaction_side'', strip r5), (''asset_format'', strip r6),
               (''duration'', strip r7), (''file_format'', strip r8),
               (''original_filename'', fname)]"
    by (simp add: parse_filename_def basename_plain [OF slash] m cl last
        idem [OF r2(4)] idem [OF r3(4)] idem [OF r4(4)] idem [OF r5(4)] idem [OF r6(4)]
        idem [OF r7(4)] del: strip_def)
  have second: "re_match pattern (basename other) = None \<longrightarrow> parse_filename other = None"
    by (simp add: parse_filename_def)
  from first second show ?thesis by blast
qed

theorem parse_filename_documented_shape_witness:
  "plain_field '' BUY123 '' \<and> plain_field '' jpg''
   \<and> parse_filename ''US-EN | BUY123 | Summer | Youth | Seller | Image | 30s | jpg''
       = Some [(''country_language'', ''US-EN''), (''buyout_code'', ''BUY123''),
               (''concept'', ''Summer''), (''audience'', ''Youth''),
               (''transaction_side'', ''Seller''), (''asset_format'', ''Image''),
               (''duration'', ''30s''), (''file_format'', ''jpg''),
               (''original_filename'',
                ''US-EN | BUY123 | Summer | Youth | Seller | Image | 30s | jpg'')]"
proof -
  have s: "strip '' BUY123 '' = ''BUY123''" "strip '' Summer '' = ''Summer''"
      "strip '' Youth '' = ''Youth''" "strip '' Seller '' = ''Seller''"
      "strip '' Image '' = ''Image''" "strip '' 30s '' = ''30s''" "strip '' jpg'' = ''jpg''"
    by (simp_all add: strip_def whitespace_def)
  have f: "plain_field '' BUY123 ''" "plain_field '' Summer ''" "plain_field '' Youth ''"
      "plain_field '' Seller ''" "plain_field '' Image ''" "plain_field '' 30s ''"
      "plain_field '' jpg''"
    by (simp_all add: plain_field_def s newline_def)
  have u: "CHR ''U'' \<in> uppercase" "CHR ''S'' \<in> uppercase" "CHR ''E'' \<in> uppercase"
      "CHR ''N'' \<in> uppercase"
    by (simp_all add: uppercase_def)
  have a: "set (strip '' BUY123 '') \<subseteq> alnum"
    by (simp add: s alnum_def uppercase_def digits_def)
  have p: "blank '' ''" by (simp add: blank_def whitespace_def)
  from parse_filename_documented_shape [OF u p f(1) a f(2-7), of
      "''US-EN | BUY123 | Summer | Youth | Seller | Image | 30s | jpg''"] f(1,7)
  show ?thesis by (simp add: s)
qed

text \<open>
  C6, as stated, lets each of the seven fields hold any character but the pipe. The
  pattern wants \<open>[A-Za-z0-9]+\<close> for the buyout code: a name of the documented shape
  with the code \<open>BUY-123\<close> is not parsed.
\<close>

theorem parse_filename_rejects_hyphenated_buyout_code:
  "plain_field '' BUY-123 ''
   \<and> parse_filename ''US-EN | BUY-123 | Summer | Youth | Seller | Image | 30s | jpg'' = None"
proof -
  have "strip '' BUY-123 '' = ''BUY-123''" by (simp add: strip_def whitespace_def)
  then have "plain_field '' BUY-123 ''" by (simp add: plain_field_def newline_def)
  moreover have "parse_filename ''US-EN | BUY-123 | Summer | Youth | Seller | Image | 30s | jpg'' = None"
    by code_simp
  ultimately show ?thesis by blast
qed

section \<open>Buyout validation\<close>

lemma strptime_examples:
  "strptime ''03/04/2024'' [Day, Literal CHR ''/'', Month, Literal CHR ''/'', Year4] = Some (midnight 2024 4 3)"
  "strptime ''03/04/2024'' [Month, Literal CHR ''/'', Day, Literal CHR ''/'', Year4] = Some (midnight 2024 3 4)"
  "strptime ''31/12/2099'' [Day, Literal CHR ''/'', Month, Literal CHR ''/'', Year4] = Some (midnight 2099 12 31)"
  "strptime ''31/12/2099'' [Month, Literal CHR ''/'', Day, Literal CHR ''/'', Year4] = None"
  by code_simp+

lemma first_parse_order:
  "first_parse date_formats v =
     (case strptime v [Day, Literal CHR ''/'', Month, Literal CHR ''/'', Year4] of
        Some d \<Rightarrow> Some d
      | None \<Rightarrow>
     (case strptime v [Month, Literal CHR ''/'', Day, Literal CHR ''/'', Year4] of
        Some d \<Rightarrow> Some d
      | None \<Rightarrow>
     (case strptime v [Year4, Literal CHR ''-'', Month, Literal CHR ''-'', Day] of
        Some d \<Rightarrow> Some d
      | None \<Rightarrow> strptime v [Year4, Literal CHR ''/'', Month, Literal CHR ''/'', Day])))"
  by (simp add: date_formats_def split: option.splits)

lemma licensed_until_2099:
  "fst (validate_buyout_code accepting_env licensed_asset example_buyout_data fresh_validator)"
proof -
  have "first_parse date_formats ''31/12/2099'' = Some (midnight 2099 12 31)"
    by (simp add: first_parse_order strptime_examples)
  moreover have "\<not> datetime_less (midnight 2099 12 31) (datetime_now accepting_env 0)"
    by (simp add: datetime_less_def midnight_def accepting_env_def)
  ultimately show ?thesis
    by (simp add: validate_buyout_code_def licensed_asset_def example_asset_def Asset_def
        example_buyout_data_def fresh_validator_def Let_def)
qed

text \<open>
  C5. Buyout validation fails exactly when the buyout code is empty, is not in the expiry
  table, the table's value parses under none of the four formats, or the current time is
  strictly after the parsed expiry, midnight of that day. The formats are tried in the
  order day/month/year, month/day/year, year-month-day, year/month/day, and the first
  that parses wins: \<open>03/04/2024\<close> parses under the first two and is read as the 3rd of
  April; \<open>31/12/2099\<close> does not parse as month/day/year, is read as the 31st of
  December 2099, and validates while that day is not past.
\<close>

theorem validate_buyout_code_fails_iff:
  "(\<not> fst (validate_buyout_code e a buyout_data s))
     = (buyout_code a = []
        \<or> buyout_data (buyout_code a) = None
        \<or> (\<exists>v. buyout_data (buyout_code a) = Some v
              \<and> (first_parse date_formats v = None
                  \<or> (\<exists>d. first_parse date_formats v = Some d
                        \<and> datetime_less d (datetime_now e (now_reads s))))))
   \<and> first_parse date_formats v =
     (case strptime v [Day, Literal CHR ''/'', Month, Literal CHR ''/'', Year4] of
        Some d \<Rightarrow> Some d
      | None \<Rightarrow>
     (case strptime v [Month, Literal CHR ''/'', Day, Literal CHR ''/'', Year4] of
        Some d \<Rightarrow> Some d
      | None \<Rightarrow>
     (case strptime v [Year4, Literal CHR ''-'', Month, Literal CHR ''-'', Day] of
        Some d \<Rightarrow> Some d
      | None \<Rightarrow> strptime v [Year4, Literal CHR ''/'', Month, Literal CHR ''/'', Day])))
   \<and> strptime ''03/04/2024'' [Month, Literal CHR ''/'', Day, Literal CHR ''/'', Year4]
       = Some (midnight 2024 3 4)
   \<and> first_parse date_formats ''03/04/2024'' = Some (midnight 2024 4 3)
   \<and> strptime ''31/12/2099'' [Month, Literal CHR ''/'', Day, Literal CHR ''/'', Year4] = None
   \<and> first_parse date_formats ''31/12/2099'' = Some (midnight 2099 12 31)
   \<and> fst (validate_buyout_code accepting_env licensed_asset example_buyout_data fresh_validator)"
proof -
  have empty: "first_parse date_formats [] = None"
    by code_simp
  have iff: "(\<not> fst (validate_buyout_code e a buyout_data s))
     = (buyout_code a = []
        \<or> buyout_data (buyout_code a) = None
        \<or> (\<exists>v. buyout_data (buyout_code a) = Some v
              \<and> (first_parse date_formats v = None
                  \<or> (\<exists>d. first_parse date_formats v = Some d
                        \<and> datetime_less d (datetime_now e (now_reads s))))))"
    using empty
    by (auto simp: validate_buyout_code_def Let_def split: option.splits)
  have a: "first_parse date_formats ''03/04/2024'' = Some (midnight 2024 4 3)"
    by (simp add: first_parse_order strptime_examples)
  have b: "first_parse date_formats ''31/12/2099'' = Some (midnight 2099 12 31)"
    by (simp add: first_parse_order strptime_examples)
  from iff first_parse_order [of v] strptime_examples(2,4) a b licensed_until_2099
  show ?thesis by blast
qed

section \<open>The budget of an asset whose buyout is invalid\<close>

lemma validate_buyout_code_name:
  "validate_buyout_code e (a\<lparr>is_valid_name := n\<rparr>) buyout_data s = validate_buyout_code e a buyout_data s"
  by (simp add: validate_buyout_code_def)

text \<open>
  C3. Whenever the buyout validation of \<open>validate_asset\<close> fails, the asset comes back with
  budget 0 and an invalid buyout, whatever the ads endpoint does with the pushed zero:
  for every environment, so whether the push succeeds, fails on all three attempts, or
  returns at once because the asset has no \<open>ad_id\<close> or \<open>file_id\<close>.
\<close>

theorem validate_asset_zeroes_budget:
  assumes "\<not> fst (validate_buyout_code e a buyout_data s)"
  shows "budget (fst (validate_asset e a image_path buyout_data s)) = 0
    \<and> \<not> is_buyout_valid (fst (validate_asset e a image_path buyout_data s))"
proof -
  let ?a1 = "a\<lparr>is_valid_name := validate_asset_name a\<rparr>"
  obtain ok s1 where b: "validate_buyout_code e ?a1 buyout_data s = (ok, s1)"
    by (cases "validate_buyout_code e ?a1 buyout_data s")
  with assms have ok: "\<not> ok" by (simp add: validate_buyout_code_name)
  let ?a2 = "?a1\<lparr>is_buyout_valid := ok\<rparr>"
  obtain quality privacy s2 where q: "validate_image_quality e ?a2 image_path s1 = ((quality, privacy), s2)"
    by (cases "validate_image_quality e ?a2 image_path s1") auto
  let ?a3 = "?a2\<lparr>quality_score := quality, is_privacy_compliant := privacy\<rparr>"
  obtain pushed s3 where p: "validator_update_asset_budget e ?a3 True s2 = (pushed, s3)"
    by (cases "validator_update_asset_budget e ?a3 True s2")
  from ok p have z: "zero_budget e ?a3 s2 = (?a3\<lparr>budget := 0\<rparr>, s3)"
    by (simp add: zero_budget_def)
  from b q z have "fst (validate_asset e a image_path buyout_data s) = ?a3\<lparr>budget := 0\<rparr>"
    by (simp add: validate_asset_def Let_def)
  with ok show ?thesis by simp
qed

lemma expired_2020:
  "\<not> fst (validate_buyout_code failing_env expired_asset example_buyout_data fresh_validator)"
proof -
  have "first_parse date_formats ''31/12/2020'' = Some (midnight 2020 12 31)"
    by code_simp
  moreover have "datetime_less (midnight 2020 12 31) (datetime_now failing_env 0)"
    by (simp add: datetime_less_def midnight_def failing_env_def accepting_env_def)
  ultimately show ?thesis
    by (simp add: validate_buyout_code_def expired_asset_def example_asset_def Asset_def
        example_buyout_data_def fresh_validator_def Let_def)
qed

theorem validate_asset_zeroes_budget_witness:
  "\<not> fst (validate_buyout_code failing_env expired_asset example_buyout_data fresh_validator)
   \<and> budget expired_asset = 100
   \<and> budget (fst (validate_asset failing_env expired_asset ''a1.jpg'' example_buyout_data
        fresh_validator)) = 0"
proof -
  have "budget expired_asset = 100"
    by (simp add: expired_asset_def example_asset_def Asset_def)
  with expired_2020 validate_asset_zeroes_budget [OF expired_2020, of "''a1.jpg''"]
  show ?thesis by simp
qed

end
